theory Spec2Isabelle
  imports Complex_Main "HOL-Library.AList"
begin

section \<open>Values and errors\<close>

text \<open>
  A shallow embedding of \<^verbatim>\<open>cobaya/collection.py\<close>. The table behind a collection is a
  pandas DataFrame of floats: a cell is either not-a-number (the filling of a row that was
  never written) or a number. Numbers are modelled as reals, so the rounding of floating
  point arithmetic is not part of the model; Python's unbounded integers are \<open>int\<close>.

  Every exception the code can raise is a value of \<open>error\<close>. \<open>LoggedError\<close> is cobaya's
  own exception; its argument says which message of \<^verbatim>\<open>collection.py\<close> it carries.
\<close>

datatype cell = NaN | Num real

datatype logged =
    NeedLogpostOrBoth   \<comment> \<open>"If a log-posterior is not specified, you need to pass a
                             log-likelihood and a log-prior."\<close>
  | SampledArity nat nat \<comment> \<open>"Got %d values for the sampled parameters. Should be %d."\<close>
  | DerivedArity nat nat \<comment> \<open>"Got %d values for the derived parameters. Should be %d."\<close>
  | NeedLimits           \<comment> \<open>"Needs to specify the limit n's to dump."\<close>

datatype error = IndexError | TypeError | ValueError | AttributeError | LoggedError logged

section \<open>Bounds checks on indices and slices\<close>

text \<open>
  \<^verbatim>\<open>
  def check_index(i, imax):
      if (i > 0 and i >= imax) or (i < 0 and -i > imax):
          raise IndexError(...)
      if i < 0:
          return imax + i
      return i
  \<close>
\<close>

definition check_index :: "int \<Rightarrow> int \<Rightarrow> error + int" where
  "check_index i imax =
     (if (i > 0 \<and> i \<ge> imax) \<or> (i < 0 \<and> - i > imax) then Inl IndexError
      else if i < 0 then Inr (imax + i)
      else Inr i)"

text \<open>
  A Python \<^verbatim>\<open>slice\<close> object: each of its three parts is an integer or \<^verbatim>\<open>None\<close>.
  \<^verbatim>\<open>
  def check_slice(ij, imax):
      newlims = {"start": ij.start, "stop": ij.stop}
      for limname, lim in newlims.items():
          if lim >= 0:
              newlims[limname] = min(imax, lim)
          else:
              newlims[limname] = imax + lim
      return slice(newlims["start"], newlims["stop"], ij.step)
  \<close>
  In Python 3 the comparison \<^verbatim>\<open>None >= 0\<close> raises TypeError; \<open>check_lim\<close> is the body
  of the loop, run for \<^verbatim>\<open>start\<close> first and for \<^verbatim>\<open>stop\<close> second.
\<close>

record pyslice =
  start :: "int option"
  stop :: "int option"
  step :: "int option"

definition check_lim :: "int option \<Rightarrow> int \<Rightarrow> error + int" where
  "check_lim bound imax =
     (case bound of
        None \<Rightarrow> Inl TypeError
      | Some l \<Rightarrow> if l \<ge> 0 then Inr (min imax l) else Inr (imax + l))"

definition check_slice :: "pyslice \<Rightarrow> int \<Rightarrow> error + pyslice" where
  "check_slice ij imax =
     (case check_lim (start ij) imax of
        Inl e \<Rightarrow> Inl e
      | Inr a \<Rightarrow>
          (case check_lim (stop ij) imax of
             Inl e \<Rightarrow> Inl e
           | Inr b \<Rightarrow> Inr \<lparr>start = Some a, stop = Some b, step = step ij\<rparr>))"

section \<open>Positional access to the rows of a frame\<close>

text \<open>
  \<^verbatim>\<open>data.iloc[k]\<close> for an integer \<open>k\<close>: a position in \<open>[-len, len)\<close>, negative ones
  counted from the end of the physical frame; anything else raises IndexError.
\<close>

definition iloc_row :: "cell list list \<Rightarrow> int \<Rightarrow> error + cell list" where
  "iloc_row rows k =
     (let len = int (length rows) in
      if 0 \<le> k \<and> k < len then Inr (rows ! nat k)
      else if - len \<le> k \<and> k < 0 then Inr (rows ! nat (len + k))
      else Inl IndexError)"

text \<open>
  \<^verbatim>\<open>data.iloc[slice(a, b, s)]\<close> selects the positions that Python's own slicing selects
  in a sequence of the frame's physical length: a zero step raises ValueError, a bound is
  resolved against the length when negative and then clamped (\<open>adjust_bound\<close>), and the
  positions are those of \<^verbatim>\<open>range(a, b, s)\<close>.
\<close>

definition adjust_bound :: "int \<Rightarrow> int \<Rightarrow> int \<Rightarrow> int" where
  "adjust_bound len stp i =
     (if i < 0 then (if i + len < 0 then (if stp < 0 then - 1 else 0) else i + len)
      else if i \<ge> len then (if stp < 0 then len - 1 else len)
      else i)"

definition slice_positions :: "pyslice \<Rightarrow> nat \<Rightarrow> error + nat list" where
  "slice_positions s len =
     (let stp = (case step s of None \<Rightarrow> 1 | Some k \<Rightarrow> k) in
      if stp = 0 then Inl ValueError
      else
        let a = (case start s of
                   None \<Rightarrow> if stp < 0 then int len - 1 else 0
                 | Some i \<Rightarrow> adjust_bound (int len) stp i);
            b = (case stop s of
                   None \<Rightarrow> if stp < 0 then - 1 else int len
                 | Some i \<Rightarrow> adjust_bound (int len) stp i);
            cnt = (if stp < 0 then (if b < a then (a - b - 1) div (- stp) + 1 else 0)
                   else (if a < b then (b - a - 1) div stp + 1 else 0))
        in Inr (map (\<lambda>k. nat (a + int k * stp)) [0..<nat cnt]))"

definition iloc_slice :: "cell list list \<Rightarrow> pyslice \<Rightarrow> error + cell list list" where
  "iloc_slice rows s =
     (case slice_positions s (length rows) of
        Inl e \<Rightarrow> Inl e
      | Inr ps \<Rightarrow> Inr (map (\<lambda>p. rows ! p) ps))"

section \<open>The column layout\<close>

text \<open>
  Modelled from the spec: the five name constants that \<^verbatim>\<open>collection.py\<close> imports from
  \<^verbatim>\<open>cobaya.conventions\<close> (\<^verbatim>\<open>_weight\<close>, \<^verbatim>\<open>_minuslogpost\<close>, \<^verbatim>\<open>_minuslogprior\<close>,
  \<^verbatim>\<open>_chi2\<close>, \<^verbatim>\<open>_separator\<close>), a module that is not among the sources. The names are
  those of the spec's column schema: \<^verbatim>\<open>weight\<close>, \<^verbatim>\<open>minus_log_posterior\<close>,
  \<^verbatim>\<open>minus_log_prior\<close>, \<^verbatim>\<open>chi2\<close>, and components named
  \<^verbatim>\<open>minus_log_prior__<prior>\<close> and \<^verbatim>\<open>chi2__<likelihood>\<close>.
\<close>

definition weight_name :: string where "weight_name = ''weight''"
definition minuslogpost_name :: string where "minuslogpost_name = ''minus_log_posterior''"
definition minuslogprior_name :: string where "minuslogprior_name = ''minus_log_prior''"
definition chi2_name :: string where "chi2_name = ''chi2''"
definition separator :: string where "separator = ''__''"

text \<open>
  What the constructors read from the model: the names of the sampled parameters, of the
  derived parameters, of the prior's components and of the likelihoods, each in order.
\<close>

record model =
  sampled :: "string list"
  derived :: "string list"
  prior :: "string list"
  likelihood :: "string list"

section \<open>Python dictionaries\<close>

text \<open>
  A dictionary keeps its keys in insertion order, and \<^verbatim>\<open>list(dic.values())\<close> reads the
  values in that order: assigning to a key that is present replaces its value in place,
  assigning to a new key appends it. That is \<open>AList.update\<close> on an association list.
  \<open>assign_zip\<close> is the loop \<^verbatim>\<open>for name, value in zip(names, values): dic[name] = g(value)\<close>.
\<close>

type_synonym pydict = "(string \<times> cell) list"

definition setitem :: "pydict \<Rightarrow> string \<Rightarrow> cell \<Rightarrow> pydict" where
  "setitem dic k v = AList.update k v dic"

definition assign_zip :: "(real \<Rightarrow> real) \<Rightarrow> string list \<Rightarrow> real list \<Rightarrow> pydict \<Rightarrow> pydict" where
  "assign_zip g names vals dic =
     fold (\<lambda>(name, value) d. setitem d name (Num (g value))) (zip names vals) dic"

section \<open>The collection\<close>

text \<open>
  The state of a \<^verbatim>\<open>Collection\<close>. \<open>data\<close> holds the physical rows of \<^verbatim>\<open>self.data\<close>, whose
  column labels are \<open>columns\<close> (the collection is created fresh; loading a stored chain,
  which goes through a function outside the sources, is not modelled). \<open>n_filled\<close> is
  \<^verbatim>\<open>self._n\<close>, \<open>n_last_out\<close> is \<^verbatim>\<open>self._n_last_out\<close>, \<open>value_dict\<close> is \<^verbatim>\<open>self._value_dict\<close>,
  and \<open>file_lines\<close> is the content of the text file at \<^verbatim>\<open>self.file_name\<close>, one entry per line.
\<close>

datatype driver = Dummy | Txt

datatype line = HeaderLine "string list" | DataLine "cell list" | EmptyFrameText

record Collection =
  sampled_params :: "string list"
  derived_params :: "string list"
  minuslogprior_names :: "string list"
  chi2_names :: "string list"
  columns :: "string list"
  value_dict :: pydict
  data :: "cell list list"
  n_filled :: nat
  driver :: driver
  n_last_out :: nat
  file_lines :: "line list"

text \<open>
  The module's two tuning globals, \<^verbatim>\<open>enlargement_size = 100\<close> and
  \<^verbatim>\<open>enlargement_factor = None\<close>, can be reassigned, so they are an argument.

  With a factor, the step of growth is a floating point number, and so are the sum
  \<^verbatim>\<open>len(self) + enlarge_by\<close> and the count of \<^verbatim>\<open>np.arange\<close> over it. The model has no
  floating point: how many entries \<^verbatim>\<open>np.arange(a, a + x)\<close> has for a positive fractional
  step \<open>x\<close> is the third argument, \<open>arange_rows a x\<close>, and every statement below holds
  whatever it is. (In exact arithmetic it would be \<open>\<lceil>x\<rceil>\<close>; rounding can make it differ,
  down to no entry at all for a tiny step.)
\<close>

record settings =
  enlargement_size :: int
  enlargement_factor :: "real option"
  arange_rows :: "nat \<Rightarrow> real \<Rightarrow> nat"

definition default_settings :: settings where
  "default_settings =
     \<lparr>enlargement_size = 100, enlargement_factor = None,
      arange_rows = (\<lambda>a x. nat \<lceil>x\<rceil>)\<rparr>"

definition nan_rows :: "nat \<Rightarrow> nat \<Rightarrow> cell list list" where
  "nan_rows k width = replicate k (replicate width NaN)"

text \<open>
  \<^verbatim>\<open>BaseCollection.__init__\<close> builds the names and the column list;
  \<^verbatim>\<open>Collection.__init__\<close>, neither resuming nor loading, fills the value dictionary with
  not-a-number under every column, deletes the file of the text driver, and calls
  \<^verbatim>\<open>reset(columns, range(initial_size))\<close>. \<open>output\<close> says whether an output was given
  (the text driver) or not (the dummy driver). Without an output the attribute
  \<^verbatim>\<open>_n_last_out\<close> is never assigned; the model keeps 0 in its place, and no method of the
  dummy driver reads it.
\<close>

definition Collection_init :: "model \<Rightarrow> bool \<Rightarrow> nat \<Rightarrow> Collection" where
  "Collection_init m output initial_size =
     (let priors = map (\<lambda>piname. minuslogprior_name @ separator @ piname) (prior m);
          chi2s = map (\<lambda>likname. chi2_name @ separator @ likname) (likelihood m);
          cols = [weight_name, minuslogpost_name] @ sampled m
                 @ filter (\<lambda>p. p \<notin> set chi2s) (derived m)
                 @ [minuslogprior_name] @ priors @ [chi2_name] @ chi2s
      in \<lparr>sampled_params = sampled m,
          derived_params = derived m,
          minuslogprior_names = priors,
          chi2_names = chi2s,
          columns = cols,
          value_dict = fold (\<lambda>p d. setitem d p NaN) cols [],
          data = nan_rows initial_size (length cols),
          n_filled = 0,
          driver = (if output then Txt else Dummy),
          n_last_out = 0,
          file_lines = []\<rparr>)"

text \<open>
  \<^verbatim>\<open>reset()\<close> with its default arguments keeps the columns and the index of the frame.
\<close>

definition reset :: "Collection \<Rightarrow> Collection" where
  "reset c = c\<lparr>data := nan_rows (length (data c)) (length (columns c)), n_filled := 0\<rparr>"

text \<open>
  \<^verbatim>\<open>
  def _enlarge_if_needed(self):
      if self._n >= self.data.shape[0]:
          if enlargement_factor:
              enlarge_by = self.data.shape[0] * enlargement_factor
          else:
              enlarge_by = enlargement_size
          self.data = pd.concat([
              self.data, pd.DataFrame(np.nan, columns=self.data.columns,
                                      index=np.arange(len(self), len(self) + enlarge_by))])
  \<close>
  \<open>enlarge_by\<close> is the step, as a number. \<open>new_rows\<close> is the number of entries of
  \<^verbatim>\<open>np.arange(len(self), len(self) + enlarge_by)\<close>, that is of rows added: none when the
  step is zero or negative (the sum is then not above \<^verbatim>\<open>len(self)\<close>, whatever the
  rounding); \<^verbatim>\<open>enlargement_size\<close> of them for the integer step; and for a positive
  fractional step what \<open>arange_rows\<close> says.
\<close>

definition enlarge_by :: "settings \<Rightarrow> Collection \<Rightarrow> real" where
  "enlarge_by cfg c =
     (case enlargement_factor cfg of
        None \<Rightarrow> of_int (enlargement_size cfg)
      | Some f \<Rightarrow> if f \<noteq> 0 then real (length (data c)) * f
                  else of_int (enlargement_size cfg))"

definition new_rows :: "settings \<Rightarrow> Collection \<Rightarrow> nat" where
  "new_rows cfg c =
     (if enlarge_by cfg c \<le> 0 then 0
      else case enlargement_factor cfg of
             None \<Rightarrow> nat (enlargement_size cfg)
           | Some f \<Rightarrow> if f \<noteq> 0 then arange_rows cfg (n_filled c) (enlarge_by cfg c)
                       else nat (enlargement_size cfg))"

definition enlarge_if_needed :: "settings \<Rightarrow> Collection \<Rightarrow> Collection" where
  "enlarge_if_needed cfg c =
     (if n_filled c \<ge> length (data c)
      then c\<lparr>data := data c @ nan_rows (new_rows cfg c) (length (columns c))\<rparr>
      else c)"

text \<open>
  \<^verbatim>\<open>
  def _add_dict(self, dic, values, derived=None, weight=1, logpost=None, logpriors=None,
                loglikes=None):
      dic[_weight] = weight
      if logpost is None:
          try:
              logpost = sum(logpriors) + sum(loglikes)
          except ValueError:
              raise LoggedError(self.log, "If a log-posterior is not specified, ...")
      dic[_minuslogpost] = -logpost
      if logpriors is not None:
          for name, value in zip(self.minuslogprior_names, logpriors):
              dic[name] = -value
          dic[_minuslogprior] = -sum(logpriors)
      if loglikes is not None:
          for name, value in zip(self.chi2_names, loglikes):
              dic[name] = -2 * value
          dic[_chi2] = -2 * sum(loglikes)
      if len(values) != len(self.sampled_params):
          raise LoggedError(self.log, "Got %d values for the sampled parameters. ...")
      for name, value in zip(self.sampled_params, values):
          dic[name] = value
      if derived is not None:
          if len(derived) != len(self.derived_params):
              raise LoggedError(self.log, "Got %d values for the derived parameters. ...")
          for name, value in zip(self.derived_params, derived):
              dic[name] = value
  \<close>
  \<^verbatim>\<open>sum(None)\<close> raises TypeError (\<open>py_sum\<close>); the handler of the \<^verbatim>\<open>try\<close> statement catches
  ValueError alone (\<open>except_ValueError\<close>). The dictionary is mutated in place, so a call
  that raises returns the error together with the dictionary as the raise leaves it.
\<close>

definition py_sum :: "real list option \<Rightarrow> error + real" where
  "py_sum xs = (case xs of None \<Rightarrow> Inl TypeError | Some l \<Rightarrow> Inr (sum_list l))"

definition sum_logpost :: "real list option \<Rightarrow> real list option \<Rightarrow> error + real" where
  "sum_logpost logpriors loglikes =
     (case py_sum logpriors of
        Inl e \<Rightarrow> Inl e
      | Inr a \<Rightarrow> (case py_sum loglikes of Inl e \<Rightarrow> Inl e | Inr b \<Rightarrow> Inr (a + b)))"

definition except_ValueError :: "error + 'a \<Rightarrow> error \<Rightarrow> error + 'a" where
  "except_ValueError r handler = (case r of Inl ValueError \<Rightarrow> Inl handler | _ \<Rightarrow> r)"

definition add_dict ::
  "Collection \<Rightarrow> pydict \<Rightarrow> real list \<Rightarrow> real list option \<Rightarrow> real \<Rightarrow> real option \<Rightarrow>
   real list option \<Rightarrow> real list option \<Rightarrow> (error \<times> pydict) + pydict" where
  "add_dict c dic vals deriv w logpost logpriors loglikes =
     (let d1 = setitem dic weight_name (Num w) in
      case (case logpost of
              Some lp \<Rightarrow> Inr lp
            | None \<Rightarrow> except_ValueError (sum_logpost logpriors loglikes)
                        (LoggedError NeedLogpostOrBoth)) of
        Inl e \<Rightarrow> Inl (e, d1)
      | Inr lp \<Rightarrow>
          let d2 = setitem d1 minuslogpost_name (Num (- lp));
              d3 = (case logpriors of
                      None \<Rightarrow> d2
                    | Some lps \<Rightarrow>
                        setitem (assign_zip uminus (minuslogprior_names c) lps d2)
                          minuslogprior_name (Num (- sum_list lps)));
              d4 = (case loglikes of
                      None \<Rightarrow> d3
                    | Some lls \<Rightarrow>
                        setitem (assign_zip (\<lambda>v. - 2 * v) (chi2_names c) lls d3)
                          chi2_name (Num (- 2 * sum_list lls)))
          in if length vals \<noteq> length (sampled_params c)
             then Inl (LoggedError (SampledArity (length vals) (length (sampled_params c))), d4)
             else
               let d5 = assign_zip (\<lambda>v. v) (sampled_params c) vals d4 in
               (case deriv of
                  None \<Rightarrow> Inr d5
                | Some ds \<Rightarrow>
                    if length ds \<noteq> length (derived_params c)
                    then Inl (LoggedError
                               (DerivedArity (length ds) (length (derived_params c))), d5)
                    else Inr (assign_zip (\<lambda>v. v) (derived_params c) ds d5)))"

text \<open>
  \<^verbatim>\<open>
  def add(self, values, derived=None, weight=1, logpost=None, logpriors=None,
          loglikes=None):
      self._enlarge_if_needed()
      self._add_dict(self._value_dict, values, derived, weight, logpost, logpriors,
                     loglikes)
      self.data.iloc[self._n] = np.array(list(self._value_dict.values()))
      self._n += 1
  \<close>
  Assigning to \<^verbatim>\<open>data.iloc[k]\<close> cannot enlarge the frame (IndexError past its last row) and
  needs as many values as the frame has columns (ValueError otherwise). A call that raises
  returns the error together with the collection as the raise leaves it.
\<close>

definition Collection_add ::
  "settings \<Rightarrow> real list \<Rightarrow> real list option \<Rightarrow> real \<Rightarrow> real option \<Rightarrow>
   real list option \<Rightarrow> real list option \<Rightarrow> Collection \<Rightarrow> (error \<times> Collection) + Collection" where
  "Collection_add cfg vals deriv w logpost logpriors loglikes c =
     (let c1 = enlarge_if_needed cfg c in
      case add_dict c1 (value_dict c1) vals deriv w logpost logpriors loglikes of
        Inl (e, d) \<Rightarrow> Inl (e, c1\<lparr>value_dict := d\<rparr>)
      | Inr d \<Rightarrow>
          let c2 = c1\<lparr>value_dict := d\<rparr>; row = map snd d in
          if n_filled c2 \<ge> length (data c2) then Inl (IndexError, c2)
          else if length row \<noteq> length (columns c2) then Inl (ValueError, c2)
          else Inr (c2\<lparr>data := (data c2)[n_filled c2 := row], n_filled := n_filled c2 + 1\<rparr>))"

text \<open>\<^verbatim>\<open>__len__\<close> returns \<^verbatim>\<open>self._n\<close>.\<close>

definition len :: "Collection \<Rightarrow> nat" where
  "len c = n_filled c"

text \<open>
  The two branches of \<^verbatim>\<open>__getitem__\<close> that read rows:
  \<^verbatim>\<open>
  elif isinstance(args[0], int):
      return self.data.iloc[check_index(args[0], self._n)]
  elif isinstance(args[0], slice):
      return self.data.iloc[check_slice(args[0], self._n)]
  \<close>
\<close>

definition getitem_int :: "Collection \<Rightarrow> int \<Rightarrow> error + cell list" where
  "getitem_int c i =
     (case check_index i (int (n_filled c)) of
        Inl e \<Rightarrow> Inl e
      | Inr k \<Rightarrow> iloc_row (data c) k)"

definition getitem_slice :: "Collection \<Rightarrow> pyslice \<Rightarrow> error + cell list list" where
  "getitem_slice c ij =
     (case check_slice ij (int (n_filled c)) of
        Inl e \<Rightarrow> Inl e
      | Inr s \<Rightarrow> iloc_slice (data c) s)"

section \<open>The text driver\<close>

text \<open>
  \<^verbatim>\<open>
  def _dump_slice__txt(self, n_min=None, n_max=None):
      if n_min is None or n_max is None:
          raise LoggedError(self.log, "Needs to specify the limit n's to dump.")
      if self._n_last_out == n_max:
          return
      self._n_last_out = n_max
      n_float = 8
      do_header = not n_min
      with open(self.file_name, "a", encoding="utf-8") as out:
          lines = self.data[n_min:n_max].to_string(header=do_header, ...)
          if do_header:
              lines = "#" + (lines[1:] if lines[0] == " " else lines)
          out.write(lines + "\n")
  \<close>
  The file is opened in append mode. Of the text that \<^verbatim>\<open>to_string\<close> produces the model
  keeps which lines there are, not how the numbers are formatted: the line of column
  names when a header is asked for, then one line per row; for a frame with no rows, the
  placeholder text that pandas prints instead of both.
\<close>

definition to_string :: "bool \<Rightarrow> string list \<Rightarrow> cell list list \<Rightarrow> line list" where
  "to_string header cols rows =
     (if rows = [] then [EmptyFrameText]
      else (if header then [HeaderLine cols] else []) @ map DataLine rows)"

definition dump_slice_txt :: "nat option \<Rightarrow> nat option \<Rightarrow> Collection \<Rightarrow> error + Collection" where
  "dump_slice_txt n_min n_max c =
     (case n_min of
        None \<Rightarrow> Inl (LoggedError NeedLimits)
      | Some a \<Rightarrow>
          (case n_max of
             None \<Rightarrow> Inl (LoggedError NeedLimits)
           | Some b \<Rightarrow>
               if n_last_out c = b then Inr c
               else Inr (c\<lparr>n_last_out := b,
                          file_lines := file_lines c
                            @ to_string (a = 0) (columns c) (drop a (take b (data c)))\<rparr>)))"

text \<open>
  \<^verbatim>\<open>_dump__txt\<close> is \<^verbatim>\<open>self._dump_slice__txt(0, len(self))\<close> and \<^verbatim>\<open>_update__txt\<close> is
  \<^verbatim>\<open>self._dump_slice__txt(self.n_last_out(), len(self))\<close>; \<^verbatim>\<open>_out_update\<close> picks the
  method of the collection's driver, and the dummy driver's does nothing.
\<close>

definition dump_txt :: "Collection \<Rightarrow> error + Collection" where
  "dump_txt c = dump_slice_txt (Some 0) (Some (len c)) c"

definition update_txt :: "Collection \<Rightarrow> error + Collection" where
  "update_txt c = dump_slice_txt (Some (n_last_out c)) (Some (len c)) c"

definition out_update :: "Collection \<Rightarrow> error + Collection" where
  "out_update c = (case driver c of Txt \<Rightarrow> update_txt c | Dummy \<Rightarrow> Inr c)"

section \<open>OnePoint\<close>

text \<open>
  \<^verbatim>\<open>
  class OnePoint(Collection):
      def __init__(self, *args, **kwargs):
          kwargs["initial_size"] = 1
          super().__init__(*args, **kwargs)

      # Resets the counter, so the DataFrame never fills up!
      def add(self, *args, **kwargs):
          super().add(*args, **kwargs)
          self._n = 0

      # Dumper changed: since we have made self._n=0, it would print nothing
      def _update__txt(self):
          self._dump_slice__txt(0, 1)
  \<close>
\<close>

definition OnePoint_init :: "model \<Rightarrow> bool \<Rightarrow> Collection" where
  "OnePoint_init m output = Collection_init m output 1"

definition OnePoint_add ::
  "settings \<Rightarrow> real list \<Rightarrow> real list option \<Rightarrow> real \<Rightarrow> real option \<Rightarrow>
   real list option \<Rightarrow> real list option \<Rightarrow> Collection \<Rightarrow> (error \<times> Collection) + Collection" where
  "OnePoint_add cfg vals deriv w logpost logpriors loglikes c =
     (case Collection_add cfg vals deriv w logpost logpriors loglikes c of
        Inl x \<Rightarrow> Inl x
      | Inr c' \<Rightarrow> Inr (c'\<lparr>n_filled := 0\<rparr>))"

definition OnePoint_update_txt :: "Collection \<Rightarrow> error + Collection" where
  "OnePoint_update_txt c = dump_slice_txt (Some 0) (Some 1) c"

section \<open>OneSamplePoint\<close>

text \<open>
  \<^verbatim>\<open>
  class OneSamplePoint:
      def __init__(self, model, output_thin=1):
          self.sampled_params = list(model.parameterization.sampled_params())
          self.output_thin = output_thin
          self._added_weight = 0

      def add(self, values, weight=1, **kwargs):
          self.values = values
          self.kwargs = kwargs
          self.weight = weight

      def add_to_collection(self, collection):
          if self.output_thin > 1:
              self._added_weight += self.weight
              if self._added_weight >= self.output_thin:
                  weight = self._added_weight // self.output_thin
                  self._added_weight %= self.output_thin
              else:
                  return False
          else:
              weight = self.weight
          collection.add(self.values, weight=weight, **self.kwargs)
          return True
  \<close>
  The keyword arguments are those that \<^verbatim>\<open>Collection.add\<close> accepts. The attributes
  \<^verbatim>\<open>values\<close>, \<^verbatim>\<open>weight\<close> and \<^verbatim>\<open>kwargs\<close> exist once \<^verbatim>\<open>add\<close> has run (\<open>pending\<close>); reading
  them before raises AttributeError. Weights are integers here: the thinning works with
  \<^verbatim>\<open>//\<close> and \<^verbatim>\<open>%\<close>, which on integers are \<open>div\<close> and \<open>mod\<close>.

  The \<^verbatim>\<open>collection\<close> argument is any object with an \<^verbatim>\<open>add\<close> method: the method is the
  first argument of \<open>add_to_collection\<close>, and \<open>Collection_add_method\<close> is the one of
  \<^verbatim>\<open>Collection\<close>.
\<close>

record kwargs =
  kw_derived :: "real list option"
  kw_logpost :: "real option"
  kw_logpriors :: "real list option"
  kw_loglikes :: "real list option"

record OneSamplePoint =
  p_sampled_params :: "string list"
  output_thin :: int
  added_weight :: int
  pending :: "(real list \<times> int \<times> kwargs) option"

type_synonym 'c add_method = "real list \<Rightarrow> int \<Rightarrow> kwargs \<Rightarrow> 'c \<Rightarrow> error + 'c"

definition OneSamplePoint_init :: "model \<Rightarrow> int \<Rightarrow> OneSamplePoint" where
  "OneSamplePoint_init m thin =
     \<lparr>p_sampled_params = sampled m, output_thin = thin, added_weight = 0, pending = None\<rparr>"

definition OneSamplePoint_add ::
  "OneSamplePoint \<Rightarrow> real list \<Rightarrow> int \<Rightarrow> kwargs \<Rightarrow> OneSamplePoint" where
  "OneSamplePoint_add p vals w kw = p\<lparr>pending := Some (vals, w, kw)\<rparr>"

definition add_to_collection ::
  "'c add_method \<Rightarrow> OneSamplePoint \<Rightarrow> 'c \<Rightarrow> error + (bool \<times> OneSamplePoint \<times> 'c)" where
  "add_to_collection add p coll =
     (case pending p of
        None \<Rightarrow> Inl AttributeError
      | Some (vals, w, kw) \<Rightarrow>
          if output_thin p > 1 then
            let p1 = p\<lparr>added_weight := added_weight p + w\<rparr> in
            if added_weight p1 \<ge> output_thin p1 then
              let weight = added_weight p1 div output_thin p1;
                  p2 = p1\<lparr>added_weight := added_weight p1 mod output_thin p1\<rparr>
              in (case add vals weight kw coll of
                    Inl e \<Rightarrow> Inl e
                  | Inr coll' \<Rightarrow> Inr (True, p2, coll'))
            else Inr (False, p1, coll)
          else (case add vals w kw coll of
                  Inl e \<Rightarrow> Inl e
                | Inr coll' \<Rightarrow> Inr (True, p, coll')))"

definition Collection_add_method :: "settings \<Rightarrow> Collection add_method" where
  "Collection_add_method cfg vals w kw c =
     (case Collection_add cfg vals (kw_derived kw) (of_int w) (kw_logpost kw)
             (kw_logpriors kw) (kw_loglikes kw) c of
        Inl (e, c') \<Rightarrow> Inl e
      | Inr c' \<Rightarrow> Inr c')"

section \<open>Running a thinned chain\<close>

text \<open>
  The weights that the batcher emits are the \<^verbatim>\<open>weight\<close> arguments of its calls of
  \<^verbatim>\<open>collection.add\<close>. \<open>logged add\<close> is the method \<open>add\<close> of any collection with a log
  beside it, to which every call that returns appends the weight it was given. \<open>feed\<close>
  is the sampler's loop over its points: \<^verbatim>\<open>point.add(values, weight, **kwargs)\<close>, then
  \<^verbatim>\<open>point.add_to_collection(collection)\<close>; an exception ends it.
\<close>

definition logged :: "'c add_method \<Rightarrow> ('c \<times> int list) add_method" where
  "logged add vals w kw cl =
     (case add vals w kw (fst cl) of
        Inl e \<Rightarrow> Inl e
      | Inr c' \<Rightarrow> Inr (c', snd cl @ [w]))"

fun feed ::
  "'c add_method \<Rightarrow> (real list \<times> int \<times> kwargs) list \<Rightarrow> OneSamplePoint \<times> 'c \<Rightarrow>
   error + (OneSamplePoint \<times> 'c)" where
  "feed add [] s = Inr s"
| "feed add ((vals, w, kw) # rest) (p, coll) =
     (case add_to_collection add (OneSamplePoint_add p vals w kw) coll of
        Inl e \<Rightarrow> Inl e
      | Inr (flushed, p', coll') \<Rightarrow> feed add rest (p', coll'))"

section \<open>Reading the table, well-formed collections, runs\<close>

text \<open>
  \<open>cell_at c i name\<close> is the cell of physical row \<open>i\<close> under the column \<open>name\<close>
  (\<^verbatim>\<open>self.data.iloc[i][name]\<close>).
\<close>

definition cell_at :: "Collection \<Rightarrow> nat \<Rightarrow> string \<Rightarrow> cell option" where
  "cell_at c i name =
     (if i < length (data c) then map_of (zip (columns c) (data c ! i)) name else None)"

text \<open>
  A collection is well formed when its columns are those that \<^verbatim>\<open>BaseCollection.__init__\<close>
  builds from its names, no two columns have the same name, the keys of the value
  dictionary are the columns in order, and the filled rows fit the frame. The constructor
  establishes this for a model whose names do not collide, and \<^verbatim>\<open>add\<close> keeps it.
\<close>

definition wf :: "Collection \<Rightarrow> bool" where
  "wf c \<longleftrightarrow>
     columns c = [weight_name, minuslogpost_name] @ sampled_params c
                 @ filter (\<lambda>p. p \<notin> set (chi2_names c)) (derived_params c)
                 @ [minuslogprior_name] @ minuslogprior_names c
                 @ [chi2_name] @ chi2_names c
     \<and> distinct (columns c)
     \<and> map fst (value_dict c) = columns c
     \<and> n_filled c \<le> length (data c)"

text \<open>
  A run of a collection: appends and flushes of the delta, ended by the first exception,
  which leaves the collection as it was when raised.
\<close>

datatype op =
    Add "real list" "real list option" real "real option" "real list option" "real list option"
  | Update

fun run_ops :: "settings \<Rightarrow> op list \<Rightarrow> Collection \<Rightarrow> Collection" where
  "run_ops cfg [] c = c"
| "run_ops cfg (Add vals deriv w logpost logpriors loglikes # rest) c =
     (case Collection_add cfg vals deriv w logpost logpriors loglikes c of
        Inl (e, c') \<Rightarrow> c'
      | Inr c' \<Rightarrow> run_ops cfg rest c')"
| "run_ops cfg (Update # rest) c =
     (case out_update c of
        Inl e \<Rightarrow> c
      | Inr c' \<Rightarrow> run_ops cfg rest c')"

definition is_header :: "line \<Rightarrow> bool" where
  "is_header l = (case l of HeaderLine cols \<Rightarrow> True | _ \<Rightarrow> False)"

text \<open>
  The model of the examples: two sampled parameters, one derived parameter, one prior
  component and two likelihoods.
\<close>

definition example_model :: model where
  "example_model =
     \<lparr>sampled = [''a'', ''b''], derived = [''d''], prior = [''0''],
      likelihood = [''1'', ''2'']\<rparr>"

definition example_kwargs :: kwargs where
  "example_kwargs =
     \<lparr>kw_derived = None, kw_logpost = None, kw_logpriors = Some [- 1],
      kw_loglikes = Some [- 2, - 3]\<rparr>"

text \<open>
  What the file of a collection with the text driver holds between two operations:
  nothing as long as nothing was flushed, and otherwise the line of column names
  followed by the first \<open>n_last_out c\<close> rows of the frame, one line each.
\<close>

definition flushed_prefix :: "Collection \<Rightarrow> bool" where
  "flushed_prefix c \<longleftrightarrow>
     driver c = Txt \<and> n_last_out c \<le> n_filled c \<and> n_filled c \<le> length (data c)
     \<and> file_lines c = (if n_last_out c = 0 then []
                        else HeaderLine (columns c) # map DataLine (take (n_last_out c) (data c)))"

text \<open>
  A model with a derived parameter that bears the name of a likelihood column.
\<close>

definition overlap_model :: model where
  "overlap_model =
     \<lparr>sampled = [''a''], derived = [''chi2__1''], prior = [''0''], likelihood = [''1'']\<rparr>"

section \<open>Properties\<close>

subsection \<open>Reading by index\<close>

lemma check_index_raises_iff:
  "check_index i imax = Inl IndexError \<longleftrightarrow> (i > 0 \<and> i \<ge> imax) \<or> (i < 0 \<and> - i > imax)"
  by (auto simp add: check_index_def)

lemma check_index_resolves:
  "check_index i imax = Inr k \<Longrightarrow> k = (if i < 0 then imax + i else i)"
  by (auto simp add: check_index_def split: if_splits)

lemma getitem_int_last:
  "0 < n_filled c \<Longrightarrow> getitem_int c (- 1) = getitem_int c (int (n_filled c) - 1)"
  by (simp add: getitem_int_def check_index_def)

text \<open>
  C1. The claim has a read at a non-negative index \<open>i\<close> raise when \<open>i \<ge> L\<close>, so every read
  of an empty collection raises. The test of \<open>check_index\<close> is \<open>i > 0 and i >= imax\<close>:
  at \<open>i = 0\<close> and \<open>L = 0\<close> nothing is raised, index 0 is returned, and the read of a
  freshly created collection with at least one physical row returns that row, which was
  never written and holds not-a-number in every column.
\<close>

theorem read_zero_of_empty_collection:
  "len (Collection_init m output (Suc k)) = 0 \<and>
   check_index 0 0 = Inr 0 \<and>
   getitem_int (Collection_init m output (Suc k)) 0
     = Inr (replicate (length (columns (Collection_init m output (Suc k)))) NaN)"
  by (simp add: len_def getitem_int_def check_index_def Collection_init_def iloc_row_def
      nan_rows_def Let_def)

subsection \<open>The batcher\<close>

lemma thin_step:
  assumes T: "1 \<le> output_thin p" and r: "0 \<le> added_weight p" "added_weight p < output_thin p"
    and w: "0 \<le> w"
    and step: "add_to_collection (logged add) (OneSamplePoint_add p vals w kw) (c, tr)
               = Inr (flushed, p', (c', tr'))"
  shows "output_thin p' = output_thin p
       \<and> sum_list tr' * output_thin p + added_weight p'
           = sum_list tr * output_thin p + added_weight p + w
       \<and> 0 \<le> added_weight p' \<and> added_weight p' < output_thin p
       \<and> (\<not> flushed \<longleftrightarrow> output_thin p > 1 \<and> added_weight p + w < output_thin p)
       \<and> (\<not> flushed \<longrightarrow> c' = c \<and> tr' = tr)
       \<and> (flushed \<longrightarrow> (\<exists>e. tr' = tr @ [e] \<and> add vals e kw c = Inr c'))
       \<and> (output_thin p \<le> 1 \<longrightarrow> flushed \<and> tr' = tr @ [w])"
proof (cases "output_thin p > 1")
  case True
  show ?thesis
  proof (cases "added_weight p + w \<ge> output_thin p")
    case big: True
    from step True big obtain cc where
      a: "add vals ((added_weight p + w) div output_thin p) kw c = Inr cc" and
      f: "flushed" and p': "p' = p\<lparr>pending := Some (vals, w, kw), added_weight := (added_weight p + w) mod output_thin p\<rparr>"
      and c': "c' = cc" and l: "tr' = tr @ [(added_weight p + w) div output_thin p]"
      by (auto simp add: add_to_collection_def OneSamplePoint_add_def logged_def Let_def split: sum.splits)
    have "(added_weight p + w) div output_thin p * output_thin p + (added_weight p + w) mod output_thin p = added_weight p + w"
      by simp
    with True big a f p' c' l show ?thesis
      by (simp add: algebra_simps)
  next
    case small: False
    from step True small have
      f: "\<not> flushed" and p': "p' = p\<lparr>pending := Some (vals, w, kw), added_weight := added_weight p + w\<rparr>"
      and c': "c' = c" and l: "tr' = tr"
      by (auto simp add: add_to_collection_def OneSamplePoint_add_def logged_def Let_def split: sum.splits)
    with True small r w show ?thesis by simp
  qed
next
  case False
  with T have T1: "output_thin p = 1" by simp
  from step False obtain cc where
      a: "add vals w kw c = Inr cc" and
      f: "flushed" and p': "p' = p\<lparr>pending := Some (vals, w, kw)\<rparr>"
      and c': "c' = cc" and l: "tr' = tr @ [w]"
      by (auto simp add: add_to_collection_def OneSamplePoint_add_def logged_def Let_def split: sum.splits)
  with T1 r show ?thesis by simp
qed

lemma feed_invariant:
  assumes "1 \<le> output_thin p" "0 \<le> added_weight p" "added_weight p < output_thin p"
    and "\<forall>pt \<in> set pts. 0 \<le> fst (snd pt)"
    and "feed (logged add) pts (p, (c, tr)) = Inr (p', (c', tr'))"
  shows "output_thin p' = output_thin p
       \<and> sum_list tr' * output_thin p + added_weight p'
           = sum_list tr * output_thin p + added_weight p + sum_list (map (\<lambda>pt. fst (snd pt)) pts)
       \<and> 0 \<le> added_weight p' \<and> added_weight p' < output_thin p"
  using assms
proof (induction pts arbitrary: p c tr)
  case Nil
  then show ?case by simp
next
  case (Cons pt pts)
  obtain vals w kw where pt: "pt = (vals, w, kw)" by (cases pt) auto
  from Cons.prems(5) pt obtain fl p1 c1 tr1 where
    s1: "add_to_collection (logged add) (OneSamplePoint_add p vals w kw) (c, tr) = Inr (fl, p1, (c1, tr1))"
    and rest: "feed (logged add) pts (p1, (c1, tr1)) = Inr (p', (c', tr'))"
    by (auto split: sum.splits)
  from Cons.prems(4) pt have w: "0 \<le> w" by simp
  note st = thin_step[OF Cons.prems(1,2,3) w s1]
  from st have a: "1 \<le> output_thin p1" "0 \<le> added_weight p1" "added_weight p1 < output_thin p1"
    using Cons.prems(1) by simp_all
  from Cons.prems(4) have b: "\<forall>pt \<in> set pts. 0 \<le> fst (snd pt)" by simp
  note ih = Cons.IH[OF a b rest]
  from st ih pt show ?case by simp
qed


lemma no_thinning_flushes:
  assumes "output_thin p \<le> 1"
    and "add_to_collection add (OneSamplePoint_add p vals w kw) c = Inr (flushed, p', c')"
  shows "flushed \<and> added_weight p' = added_weight p \<and> add vals w kw c = Inr c'"
  using assms
  by (auto simp add: add_to_collection_def OneSamplePoint_add_def split: sum.splits)

lemma add_to_collection_returns:
  assumes "\<And>e. \<exists>c'. add vals e kw c = Inr c'"
  shows "\<exists>r. add_to_collection add (OneSamplePoint_add p vals w kw) c = Inr r"
proof -
  from assms obtain c1 where "add vals w kw c = Inr c1" by blast
  moreover from assms obtain c2 where
    "add vals ((added_weight p + w) div output_thin p) kw c = Inr c2" by blast
  ultimately show ?thesis
    by (auto simp add: add_to_collection_def OneSamplePoint_add_def Let_def)
qed

text \<open>
  C3. For every thinning factor \<open>T \<ge> 1\<close>, start from a new \<^verbatim>\<open>OneSamplePoint\<close> and any
  collection, feed it any points with non-negative integer weights, and then one more
  point of weight \<open>w \<ge> 0\<close> (every step of every run is such a last step). After the
  step, the sum of the weights emitted so far times \<open>T\<close> plus the carried remainder is the
  sum of the raw weights so far; the remainder is in \<open>[0, T)\<close>; the step reports
  not-flushed exactly when \<open>T > 1\<close> and remainder plus raw weight is below \<open>T\<close>, and then
  the collection is untouched; a flushed step is one call of the collection's \<^verbatim>\<open>add\<close>
  with the emitted weight; and at \<open>T \<le> 1\<close> the step flushes the raw weight itself.
\<close>

theorem batcher_conservation:
  assumes "1 \<le> T" and "\<forall>pt \<in> set pts. 0 \<le> fst (snd pt)" and "0 \<le> w"
    and "feed (logged add) pts (OneSamplePoint_init m T, (c0, [])) = Inr (p1, (c1, tr1))"
    and "add_to_collection (logged add) (OneSamplePoint_add p1 vals w kw) (c1, tr1)
         = Inr (flushed, p2, (c2, tr2))"
  shows "sum_list tr2 * T + added_weight p2 = sum_list (map (\<lambda>pt. fst (snd pt)) pts) + w
       \<and> 0 \<le> added_weight p2 \<and> added_weight p2 < T
       \<and> (\<not> flushed \<longleftrightarrow> T > 1 \<and> added_weight p1 + w < T)
       \<and> (\<not> flushed \<longrightarrow> c2 = c1 \<and> tr2 = tr1)
       \<and> (flushed \<longrightarrow> (\<exists>e. tr2 = tr1 @ [e] \<and> add vals e kw c1 = Inr c2))
       \<and> (T \<le> 1 \<longrightarrow> flushed \<and> tr2 = tr1 @ [w])"
proof -
  let ?p0 = "OneSamplePoint_init m T"
  have i: "output_thin ?p0 = T" "added_weight ?p0 = 0"
    by (simp_all add: OneSamplePoint_init_def)
  with assms(1) have a: "1 \<le> output_thin ?p0" "0 \<le> added_weight ?p0" "added_weight ?p0 < output_thin ?p0"
    by simp_all
  note f = feed_invariant[OF a assms(2) assms(4)]
  from f i have b: "1 \<le> output_thin p1" "0 \<le> added_weight p1" "added_weight p1 < output_thin p1"
    using assms(1) by simp_all
  note s = thin_step[OF b assms(3) assms(5)]
  from f s i show ?thesis by simp
qed

theorem batcher_conservation_witness:
  "\<exists>p1 c1 tr1 p2 c2 tr2.
     feed (logged (Collection_add_method default_settings)) [([1, 2], 2, example_kwargs)]
       (OneSamplePoint_init example_model 3, (Collection_init example_model False 4, []))
       = Inr (p1, (c1, tr1))
     \<and> add_to_collection (logged (Collection_add_method default_settings))
         (OneSamplePoint_add p1 [1, 2] 2 example_kwargs) (c1, tr1) = Inr (True, p2, (c2, tr2))
     \<and> tr1 = [] \<and> tr2 = [1] \<and> added_weight p1 = 2 \<and> added_weight p2 = 1
     \<and> len c1 = 0 \<and> len c2 = 1"
proof -
  let ?add = "Collection_add_method default_settings"
  let ?c1 = "Collection_init example_model False 4"
  let ?p1 = "\<lparr>p_sampled_params = sampled example_model, output_thin = 3, added_weight = 2,
              pending = Some ([1, 2], 2, example_kwargs)\<rparr>"
  have f: "feed (logged ?add) [([1, 2], 2, example_kwargs)]
       (OneSamplePoint_init example_model 3, (?c1, [])) = Inr (?p1, (?c1, []))"
    by (simp add: add_to_collection_def OneSamplePoint_add_def OneSamplePoint_init_def)
  have "\<exists>p2 c2. add_to_collection (logged ?add)
         (OneSamplePoint_add ?p1 [1, 2] 2 example_kwargs) (?c1, []) = Inr (True, p2, (c2, [1]))
         \<and> len c2 = 1"
    by (simp add: add_to_collection_def OneSamplePoint_add_def logged_def Collection_add_method_def
         example_kwargs_def len_def
         Collection_add_def add_dict_def sum_logpost_def py_sum_def except_ValueError_def Let_def
     enlarge_if_needed_def enlarge_by_def Collection_init_def example_model_def nan_rows_def setitem_def assign_zip_def
     weight_name_def minuslogpost_name_def minuslogprior_name_def chi2_name_def separator_def default_settings_def)
  then obtain p2 c2 where s: "add_to_collection (logged ?add)
         (OneSamplePoint_add ?p1 [1, 2] 2 example_kwargs) (?c1, []) = Inr (True, p2, (c2, [1]))"
       and c2: "len c2 = 1" by blast
  have h: "(3::int) \<ge> 1" "\<forall>pt \<in> set [([1, 2], 2, example_kwargs)]. (0::int) \<le> fst (snd pt)" "(0::int) \<le> 2"
    by simp_all
  from batcher_conservation[OF h f s] have "added_weight p2 = 1" by simp
  moreover have "len ?c1 = 0" by (simp add: len_def Collection_init_def Let_def)
  ultimately show ?thesis using f s c2 by (intro exI[of _ ?p1] exI[of _ ?c1] exI[of _ "[]"] exI[of _ p2] exI[of _ c2] exI[of _ "[1]"]) simp
qed

subsection \<open>Reading a range\<close>

lemma check_slice_int_bounds:
  "check_slice \<lparr>start = Some a, stop = Some b, step = st\<rparr> imax
     = Inr \<lparr>start = Some (if a \<ge> 0 then min imax a else imax + a),
            stop = Some (if b \<ge> 0 then min imax b else imax + b), step = st\<rparr>"
  by (simp add: check_slice_def check_lim_def)

lemma check_slice_stop_beyond:
  "0 \<le> L \<Longrightarrow> check_slice \<lparr>start = Some a, stop = Some (L + 1000), step = st\<rparr> L
     = check_slice \<lparr>start = Some a, stop = Some L, step = st\<rparr> L"
  by (simp add: check_slice_def check_lim_def)

text \<open>
  C5. The claim has a read of a range never raise, also with a bound left out, and has
  both bounds clamped into \<open>[0, L]\<close>. In \<open>check_slice\<close> a bound that is \<^verbatim>\<open>None\<close> meets
  \<^verbatim>\<open>lim >= 0\<close>, which raises TypeError: \<^verbatim>\<open>collection[:5]\<close> and \<^verbatim>\<open>collection[0:]\<close>
  raise. And a negative bound below \<open>-L\<close> is resolved to \<open>L + bound < 0\<close> and not clamped
  at 0, so that the frame resolves it against its physical length: in a collection of
  four physical rows of which one is filled, \<^verbatim>\<open>collection[0:-3]\<close> reads up to position
  \<open>4 - 2\<close> and returns the filled row and a row that was never written.
\<close>

theorem check_slice_raises_and_overruns:
  "check_slice \<lparr>start = None, stop = b, step = st\<rparr> imax = Inl TypeError \<and>
   check_slice \<lparr>start = Some a, stop = None, step = st\<rparr> imax = Inl TypeError \<and>
   (case Collection_add default_settings [1, 2] None 1 None (Some [- 1]) (Some [- 2, - 3])
           (Collection_init example_model False 4) of
      Inl x \<Rightarrow> False
    | Inr c \<Rightarrow>
        len c = 1 \<and>
        getitem_slice c \<lparr>start = Some 0, stop = Some (- 3), step = None\<rparr>
          = Inr [[Num 1, Num 6, Num 1, Num 2, NaN, Num 1, Num 1, Num 10, Num 4, Num 6],
                 replicate 10 NaN])"
proof -
  have "check_slice \<lparr>start = None, stop = b, step = st\<rparr> imax = Inl TypeError"
    by (simp add: check_slice_def check_lim_def)
  moreover have "check_slice \<lparr>start = Some a, stop = None, step = st\<rparr> imax = Inl TypeError"
    by (simp add: check_slice_def check_lim_def)
  moreover have
    "(case Collection_add default_settings [1, 2] None 1 None (Some [- 1]) (Some [- 2, - 3])
           (Collection_init example_model False 4) of
      Inl x \<Rightarrow> False
    | Inr c \<Rightarrow>
        len c = 1 \<and>
        getitem_slice c \<lparr>start = Some 0, stop = Some (- 3), step = None\<rparr>
          = Inr [[Num 1, Num 6, Num 1, Num 2, NaN, Num 1, Num 1, Num 10, Num 4, Num 6],
                 replicate 10 NaN])"
    by code_simp
  ultimately show ?thesis by blast
qed

subsection \<open>A posterior that cannot be derived\<close>

text \<open>
  C6. The claim has an append without a log-posterior and without log-priors, or without
  log-likelihoods, fail with cobaya's error and its message. \<^verbatim>\<open>sum(None)\<close> raises
  TypeError, and the handler around the sum catches ValueError only: the append raises
  TypeError, whatever its other arguments and whatever the collection.
\<close>

theorem missing_components_raise_TypeError:
  "(\<exists>c'. Collection_add cfg vals deriv w None None loglikes c = Inl (TypeError, c')) \<and>
   (\<exists>c'. Collection_add cfg vals deriv w None (Some lps) None c = Inl (TypeError, c'))"
  by (simp add: Collection_add_def add_dict_def sum_logpost_def py_sum_def
      except_ValueError_def Let_def)

subsection \<open>Growth\<close>

lemma enlarge_keeps_rows:
  "i < length (data c) \<Longrightarrow> data (enlarge_if_needed cfg c) ! i = data c ! i"
  by (simp add: enlarge_if_needed_def nth_append)

lemma enlarge_additive_grows:
  assumes "enlargement_factor cfg = None" "0 < enlargement_size cfg"
    and "length (data c) \<le> n_filled c"
  shows "length (data c) < length (data (enlarge_if_needed cfg c))"
  using assms by (simp add: enlarge_if_needed_def new_rows_def enlarge_by_def nan_rows_def)

lemma enlarge_fraction_rows:
  assumes "enlargement_factor cfg = Some f" "f \<noteq> 0"
    and "length (data c) \<le> n_filled c"
  shows "length (data (enlarge_if_needed cfg c))
         = length (data c)
           + (if real (length (data c)) * f \<le> 0 then 0
              else arange_rows cfg (n_filled c) (real (length (data c)) * f))"
  using assms by (simp add: enlarge_if_needed_def new_rows_def enlarge_by_def nan_rows_def)

text \<open>
  C8. The claim has the capacity grow strictly whenever growth triggers, under either
  policy and from every capacity. With a fraction configured the frame grows by
  \<^verbatim>\<open>self.data.shape[0] * enlargement_factor\<close> rows, which is no row for a collection of
  capacity 0 (\<^verbatim>\<open>initial_size=0\<close>): growth triggers, since \<open>0 \<ge> 0\<close>, the frame stays
  empty, and the append that asked for the room raises IndexError when it writes its row.
\<close>

theorem fraction_growth_from_zero_capacity:
  "length (data (Collection_init m output 0)) = 0 \<and>
   length (data (enlarge_if_needed \<lparr>enlargement_size = 100,
                     enlargement_factor = Some (1 / 10), arange_rows = r\<rparr>
                   (Collection_init m output 0))) = 0 \<and>
   (case Collection_add \<lparr>enlargement_size = 100,
                     enlargement_factor = Some (1 / 10), arange_rows = r\<rparr>
           [1, 2] None 1 (Some 0) None None (Collection_init example_model False 0) of
      Inl (e, c) \<Rightarrow> e = IndexError \<and> data c = []
    | Inr c \<Rightarrow> False)"
proof -
  have "length (data (Collection_init m output 0)) = 0"
    by (simp add: Collection_init_def nan_rows_def Let_def)
  moreover have
    "length (data (enlarge_if_needed \<lparr>enlargement_size = 100,
                     enlargement_factor = Some (1 / 10), arange_rows = r\<rparr>
                   (Collection_init m output 0))) = 0"
    by (simp add: enlarge_if_needed_def new_rows_def enlarge_by_def Collection_init_def
        nan_rows_def Let_def)
  moreover have
    "(case Collection_add \<lparr>enlargement_size = 100,
                     enlargement_factor = Some (1 / 10), arange_rows = r\<rparr>
           [1, 2] None 1 (Some 0) None None (Collection_init example_model False 0) of
      Inl (e, c) \<Rightarrow> e = IndexError \<and> data c = []
    | Inr c \<Rightarrow> False)"
    by (simp add: Collection_add_def add_dict_def Let_def enlarge_if_needed_def new_rows_def
        enlarge_by_def Collection_init_def example_model_def nan_rows_def setitem_def
        assign_zip_def weight_name_def minuslogpost_name_def minuslogprior_name_def
        chi2_name_def separator_def)
  ultimately show ?thesis by blast
qed

subsection \<open>The value dictionary\<close>

lemma map_of_setitem: "map_of (setitem d k v) = (map_of d)(k \<mapsto> v)"
  by (simp add: setitem_def update_conv')

lemma keys_setitem: "k \<in> set (map fst d) \<Longrightarrow> map fst (setitem d k v) = map fst d"
  by (simp add: setitem_def update_keys)

lemma dom_setitem: "fst ` set (setitem d k v) = insert k (fst ` set d)"
proof -
  have "dom (map_of (setitem d k v)) = insert k (dom (map_of d))"
    by (simp add: map_of_setitem)
  then show ?thesis by (simp add: dom_map_of_conv_image_fst)
qed

lemma assign_zip_Nil: "assign_zip g [] vals d = d"
  by (simp add: assign_zip_def)

lemma assign_zip_Nil2: "assign_zip g names [] d = d"
  by (simp add: assign_zip_def)

lemma assign_zip_Cons:
  "assign_zip g (a # names) (v # vals) d = assign_zip g names vals (setitem d a (Num (g v)))"
  by (simp add: assign_zip_def)

lemma map_of_assign_zip:
  "map_of (assign_zip g names vals d) = (map_of d)(names [\<mapsto>] map (\<lambda>v. Num (g v)) vals)"
proof (induction names arbitrary: vals d)
  case Nil
  show ?case by (simp add: assign_zip_Nil)
next
  case (Cons a names)
  show ?case
  proof (cases vals)
    case Nil
    then show ?thesis by (simp add: assign_zip_Nil2)
  next
    case (Cons v vs)
    have "map_of (assign_zip g (a # names) (v # vs) d)
          = (map_of (setitem d a (Num (g v))))(names [\<mapsto>] map (\<lambda>v. Num (g v)) vs)"
      unfolding assign_zip_Cons by (rule Cons.IH)
    also have "\<dots> = (map_of d)(a # names [\<mapsto>] map (\<lambda>v. Num (g v)) (v # vs))"
      unfolding map_of_setitem by simp
    finally show ?thesis using Cons by simp
  qed
qed

lemma keys_assign_zip:
  "set names \<subseteq> set (map fst d) \<Longrightarrow> map fst (assign_zip g names vals d) = map fst d"
proof (induction names arbitrary: vals d)
  case Nil
  show ?case by (simp add: assign_zip_Nil)
next
  case (Cons a names)
  show ?case
  proof (cases vals)
    case Nil
    then show ?thesis by (simp add: assign_zip_Nil2)
  next
    case (Cons v vs)
    from Cons.prems have a: "a \<in> set (map fst d)" and n: "set names \<subseteq> set (map fst d)"
      by simp_all
    from n have "set names \<subseteq> set (map fst (setitem d a (Num (g v))))"
      by (auto simp add: dom_setitem)
    then have "map fst (assign_zip g names vs (setitem d a (Num (g v))))
               = map fst (setitem d a (Num (g v)))"
      by (rule Cons.IH)
    with a show ?thesis unfolding Cons assign_zip_Cons by (simp only: keys_setitem)
  qed
qed

lemma map_upds_nth:
  "distinct xs \<Longrightarrow> i < length xs \<Longrightarrow> i < length ys \<Longrightarrow> (m(xs [\<mapsto>] ys)) (xs ! i) = Some (ys ! i)"
proof (induction xs arbitrary: ys i m)
  case Nil
  then show ?case by simp
next
  case (Cons x xs)
  then obtain y ys' where ys: "ys = y # ys'" by (cases ys) auto
  show ?case
  proof (cases i)
    case 0
    with Cons.prems ys show ?thesis by simp
  next
    case (Suc j)
    with Cons.prems ys have "xs ! j \<noteq> x" using nth_mem[of j xs] by auto
    with Cons Suc ys show ?thesis by simp
  qed
qed

lemma add_dict_keys:
  assumes "weight_name \<in> set (map fst d)" "minuslogpost_name \<in> set (map fst d)"
    "minuslogprior_name \<in> set (map fst d)" "chi2_name \<in> set (map fst d)"
    "set (minuslogprior_names c) \<subseteq> set (map fst d)" "set (chi2_names c) \<subseteq> set (map fst d)"
    "set (sampled_params c) \<subseteq> set (map fst d)" "set (derived_params c) \<subseteq> set (map fst d)"
  shows "case add_dict c d vals deriv w logpost logpriors loglikes of
           Inl (e, d') \<Rightarrow> map fst d' = map fst d
         | Inr d' \<Rightarrow> map fst d' = map fst d"
  using assms
  by (simp add: add_dict_def Let_def keys_setitem keys_assign_zip split: sum.splits option.splits)

lemma add_dict_map_of:
  assumes "add_dict c d vals deriv w logpost logpriors loglikes = Inr d'"
  shows "\<exists>lp. (logpost = Some lp \<or>
               (logpost = None \<and> (\<exists>lps lls. logpriors = Some lps \<and> loglikes = Some lls
                                    \<and> lp = sum_list lps + sum_list lls)))
          \<and> length vals = length (sampled_params c)
          \<and> (\<forall>ds. deriv = Some ds \<longrightarrow> length ds = length (derived_params c))
          \<and> map_of d' =
              (let m2 = (map_of d)(weight_name \<mapsto> Num w, minuslogpost_name \<mapsto> Num (- lp));
                   m3 = (case logpriors of
                           None \<Rightarrow> m2
                         | Some lps \<Rightarrow>
                             (m2(minuslogprior_names c [\<mapsto>] map (\<lambda>v. Num (- v)) lps))
                               (minuslogprior_name \<mapsto> Num (- sum_list lps)));
                   m4 = (case loglikes of
                           None \<Rightarrow> m3
                         | Some lls \<Rightarrow>
                             (m3(chi2_names c [\<mapsto>] map (\<lambda>v. Num (- 2 * v)) lls))
                               (chi2_name \<mapsto> Num (- 2 * sum_list lls)));
                   m5 = m4(sampled_params c [\<mapsto>] map Num vals)
               in case deriv of None \<Rightarrow> m5 | Some ds \<Rightarrow> m5(derived_params c [\<mapsto>] map Num ds))"
  using assms
  by (auto simp add: add_dict_def Let_def map_of_setitem map_of_assign_zip sum_logpost_def py_sum_def
      except_ValueError_def split: sum.splits option.splits if_splits error.splits)

subsection \<open>Appending to a well-formed collection\<close>

lemma enlarge_fields [simp]:
  "sampled_params (enlarge_if_needed cfg c) = sampled_params c"
  "derived_params (enlarge_if_needed cfg c) = derived_params c"
  "minuslogprior_names (enlarge_if_needed cfg c) = minuslogprior_names c"
  "chi2_names (enlarge_if_needed cfg c) = chi2_names c"
  "columns (enlarge_if_needed cfg c) = columns c"
  "value_dict (enlarge_if_needed cfg c) = value_dict c"
  "n_filled (enlarge_if_needed cfg c) = n_filled c"
  "driver (enlarge_if_needed cfg c) = driver c"
  "n_last_out (enlarge_if_needed cfg c) = n_last_out c"
  "file_lines (enlarge_if_needed cfg c) = file_lines c"
  by (simp_all add: enlarge_if_needed_def)

lemma enlarge_data:
  "\<exists>k. data (enlarge_if_needed cfg c) = data c @ nan_rows k (length (columns c))"
proof (cases "length (data c) \<le> n_filled c")
  case True
  then show ?thesis by (auto simp add: enlarge_if_needed_def)
next
  case False
  then have "data (enlarge_if_needed cfg c) = data c @ nan_rows 0 (length (columns c))"
    by (simp add: enlarge_if_needed_def nan_rows_def)
  then show ?thesis by blast
qed

lemma add_dict_names:
  assumes "sampled_params c1 = sampled_params c" "derived_params c1 = derived_params c"
    "minuslogprior_names c1 = minuslogprior_names c" "chi2_names c1 = chi2_names c"
  shows "add_dict c1 = add_dict c"
  by (intro ext) (unfold add_dict_def assms, rule refl)

lemma wf_keys:
  assumes "wf c"
  shows "weight_name \<in> set (map fst (value_dict c))"
    "minuslogpost_name \<in> set (map fst (value_dict c))"
    "minuslogprior_name \<in> set (map fst (value_dict c))"
    "chi2_name \<in> set (map fst (value_dict c))"
    "set (minuslogprior_names c) \<subseteq> set (map fst (value_dict c))"
    "set (chi2_names c) \<subseteq> set (map fst (value_dict c))"
    "set (sampled_params c) \<subseteq> set (map fst (value_dict c))"
    "set (derived_params c) \<subseteq> set (map fst (value_dict c))"
proof -
  from assms have k: "map fst (value_dict c) = [weight_name, minuslogpost_name] @ sampled_params c
                 @ filter (\<lambda>p. p \<notin> set (chi2_names c)) (derived_params c)
                 @ [minuslogprior_name] @ minuslogprior_names c
                 @ [chi2_name] @ chi2_names c"
    by (simp add: wf_def)
  show "weight_name \<in> set (map fst (value_dict c))" unfolding k by simp
  show "minuslogpost_name \<in> set (map fst (value_dict c))" unfolding k by simp
  show "minuslogprior_name \<in> set (map fst (value_dict c))" unfolding k by simp
  show "chi2_name \<in> set (map fst (value_dict c))" unfolding k by simp
  show "set (minuslogprior_names c) \<subseteq> set (map fst (value_dict c))" unfolding k by auto
  show "set (chi2_names c) \<subseteq> set (map fst (value_dict c))" unfolding k by auto
  show "set (sampled_params c) \<subseteq> set (map fst (value_dict c))" unfolding k by auto
  show "set (derived_params c) \<subseteq> set (map fst (value_dict c))" unfolding k by auto
qed

lemma add_dict_keys_wf:
  assumes "wf c"
  shows "add_dict c (value_dict c) vals deriv w logpost logpriors loglikes = Inr d'
           \<Longrightarrow> map fst d' = columns c"
    and "add_dict c (value_dict c) vals deriv w logpost logpriors loglikes = Inl (e, d')
           \<Longrightarrow> map fst d' = columns c"
proof -
  note k = add_dict_keys[OF wf_keys[OF assms], of vals deriv w logpost logpriors loglikes]
  from assms have c: "map fst (value_dict c) = columns c" by (simp add: wf_def)
  show "add_dict c (value_dict c) vals deriv w logpost logpriors loglikes = Inr d'
           \<Longrightarrow> map fst d' = columns c" using k c by simp
  show "add_dict c (value_dict c) vals deriv w logpost logpriors loglikes = Inl (e, d')
           \<Longrightarrow> map fst d' = columns c" using k c by simp
qed

lemma Collection_add_Inr:
  assumes wf: "wf c"
    and add: "Collection_add cfg vals deriv w logpost logpriors loglikes c = Inr c'"
  shows "add_dict c (value_dict c) vals deriv w logpost logpriors loglikes = Inr (value_dict c')
       \<and> map fst (value_dict c') = columns c
       \<and> sampled_params c' = sampled_params c \<and> derived_params c' = derived_params c
       \<and> minuslogprior_names c' = minuslogprior_names c \<and> chi2_names c' = chi2_names c
       \<and> columns c' = columns c \<and> driver c' = driver c \<and> n_last_out c' = n_last_out c
       \<and> file_lines c' = file_lines c
       \<and> n_filled c' = Suc (n_filled c)
       \<and> n_filled c < length (data c')
       \<and> n_filled c < length (data (enlarge_if_needed cfg c))
       \<and> data c' = (data (enlarge_if_needed cfg c))[n_filled c := map snd (value_dict c')]"
proof -
  let ?c1 = "enlarge_if_needed cfg c"
  have n: "add_dict ?c1 = add_dict c" by (rule add_dict_names) simp_all
  from add obtain d where d: "add_dict c (value_dict c) vals deriv w logpost logpriors loglikes = Inr d"
    by (auto simp add: Collection_add_def Let_def n split: sum.splits)
  from add d have c': "c' = ?c1\<lparr>value_dict := d, data := (data ?c1)[n_filled c := map snd d],
                          n_filled := n_filled c + 1\<rparr>"
    and len: "n_filled c < length (data ?c1)"
    by (auto simp add: Collection_add_def Let_def n split: if_splits)
  from add_dict_keys_wf(1)[OF wf d] have "map fst d = columns c" .
  with c' d len show ?thesis by simp
qed

lemma Collection_add_wf:
  assumes wf: "wf c"
    and add: "Collection_add cfg vals deriv w logpost logpriors loglikes c = Inr c'"
  shows "wf c'"
proof -
  note a = Collection_add_Inr[OF wf add]
  from a have e: "sampled_params c' = sampled_params c" "derived_params c' = derived_params c"
    "minuslogprior_names c' = minuslogprior_names c" "chi2_names c' = chi2_names c"
    "columns c' = columns c" "map fst (value_dict c') = columns c"
    by simp_all
  from a have n: "n_filled c' \<le> length (data c')" by simp
  have w: "columns c = [weight_name, minuslogpost_name] @ sampled_params c
                 @ filter (\<lambda>p. p \<notin> set (chi2_names c)) (derived_params c)
                 @ [minuslogprior_name] @ minuslogprior_names c
                 @ [chi2_name] @ chi2_names c" "distinct (columns c)"
    using wf unfolding wf_def by blast+
  show ?thesis unfolding wf_def e using w n by blast
qed

lemma Collection_add_row:
  assumes wf: "wf c"
    and add: "Collection_add cfg vals deriv w logpost logpriors loglikes c = Inr c'"
  shows "cell_at c' (n_filled c) name = map_of (value_dict c') name"
proof -
  note a = Collection_add_Inr[OF wf add]
  from a have "data c' ! n_filled c = map snd (value_dict c')" by simp
  moreover from a have "columns c' = map fst (value_dict c')" by simp
  ultimately have "zip (columns c') (data c' ! n_filled c) = value_dict c'"
    by (simp add: zip_map_fst_snd)
  with a show ?thesis by (simp add: cell_at_def)
qed

lemma Collection_add_other_rows:
  assumes wf: "wf c"
    and add: "Collection_add cfg vals deriv w logpost logpriors loglikes c = Inr c'"
    and i: "i < n_filled c"
  shows "cell_at c' i name = cell_at c i name"
proof -
  note a = Collection_add_Inr[OF wf add]
  from wf i have il: "i < length (data c)" by (simp add: wf_def)
  obtain k where k: "data (enlarge_if_needed cfg c) = data c @ nan_rows k (length (columns c))"
    using enlarge_data by blast
  from a k i il have "data c' ! i = data c ! i" by (simp add: nth_append)
  moreover from a k il have "i < length (data c')" by simp
  ultimately show ?thesis using a il by (simp add: cell_at_def)
qed

subsection \<open>Names and the constructor\<close>

lemma length_nan_rows [simp]: "length (nan_rows k width) = k"
  by (simp add: nan_rows_def)

lemma keys_fold_setitem:
  "distinct cols \<Longrightarrow> set cols \<inter> set (map fst d) = {} \<Longrightarrow>
   map fst (fold (\<lambda>p d. setitem d p NaN) cols d) = map fst d @ cols"
proof (induction cols arbitrary: d)
  case Nil
  then show ?case by simp
next
  case (Cons a cols)
  from Cons.prems have a: "a \<notin> set (map fst d)" by auto
  then have k: "map fst (setitem d a NaN) = map fst d @ [a]"
    by (simp add: setitem_def update_keys)
  from Cons.prems have "distinct cols" "set cols \<inter> set (map fst (setitem d a NaN)) = {}"
    unfolding k by auto
  from Cons.IH[OF this] k show ?case by simp
qed

lemma Collection_init_fields:
  "n_filled (Collection_init m output k) = 0"
  "n_last_out (Collection_init m output k) = 0"
  "file_lines (Collection_init m output k) = []"
  "driver (Collection_init m output k) = (if output then Txt else Dummy)"
  "length (data (Collection_init m output k)) = k"
  "sampled_params (Collection_init m output k) = sampled m"
  "derived_params (Collection_init m output k) = derived m"
  "minuslogprior_names (Collection_init m output k)
     = map (\<lambda>piname. minuslogprior_name @ separator @ piname) (prior m)"
  "chi2_names (Collection_init m output k)
     = map (\<lambda>likname. chi2_name @ separator @ likname) (likelihood m)"
  "data (Collection_init m output k)
     = nan_rows k (length (columns (Collection_init m output k)))"
  by (simp_all add: Collection_init_def Let_def)

lemma Collection_init_wf:
  assumes "distinct (columns (Collection_init m output k))"
  shows "wf (Collection_init m output k)"
proof -
  let ?c = "Collection_init m output k"
  have v: "value_dict ?c = fold (\<lambda>p d. setitem d p NaN) (columns ?c) []"
    by (simp add: Collection_init_def Let_def)
  have "map fst (value_dict ?c) = columns ?c"
    unfolding v using keys_fold_setitem[OF assms, of "[]"] by simp
  moreover have "columns ?c = [weight_name, minuslogpost_name] @ sampled_params ?c
                 @ filter (\<lambda>p. p \<notin> set (chi2_names ?c)) (derived_params ?c)
                 @ [minuslogprior_name] @ minuslogprior_names ?c
                 @ [chi2_name] @ chi2_names ?c"
    by (simp add: Collection_init_def Let_def)
  moreover have "n_filled ?c \<le> length (data ?c)"
    by (simp add: Collection_init_fields)
  ultimately show ?thesis using assms unfolding wf_def by blast
qed

lemma wf_names:
  assumes "wf c"
  shows "distinct (sampled_params c)" "distinct (minuslogprior_names c)" "distinct (chi2_names c)"
    "weight_name \<notin> set (sampled_params c)" "weight_name \<notin> set (derived_params c)"
    "weight_name \<notin> set (minuslogprior_names c)" "weight_name \<notin> set (chi2_names c)"
    "minuslogpost_name \<notin> set (sampled_params c)" "minuslogpost_name \<notin> set (derived_params c)"
    "minuslogpost_name \<notin> set (minuslogprior_names c)" "minuslogpost_name \<notin> set (chi2_names c)"
    "minuslogprior_name \<notin> set (sampled_params c)" "minuslogprior_name \<notin> set (derived_params c)"
    "minuslogprior_name \<notin> set (minuslogprior_names c)" "minuslogprior_name \<notin> set (chi2_names c)"
    "chi2_name \<notin> set (sampled_params c)" "chi2_name \<notin> set (derived_params c)"
    "chi2_name \<notin> set (minuslogprior_names c)" "chi2_name \<notin> set (chi2_names c)"
    "set (minuslogprior_names c) \<inter> set (sampled_params c) = {}"
    "set (minuslogprior_names c) \<inter> set (derived_params c) = {}"
    "set (minuslogprior_names c) \<inter> set (chi2_names c) = {}"
    "set (chi2_names c) \<inter> set (sampled_params c) = {}"
    "set (sampled_params c) \<inter> set (derived_params c) = {}"
proof -
  from assms have d: "distinct ([weight_name, minuslogpost_name] @ sampled_params c
                 @ filter (\<lambda>p. p \<notin> set (chi2_names c)) (derived_params c)
                 @ [minuslogprior_name] @ minuslogprior_names c
                 @ [chi2_name] @ chi2_names c)"
    unfolding wf_def by metis
  from d show "distinct (sampled_params c)" "distinct (minuslogprior_names c)" "distinct (chi2_names c)"
    by simp_all
  from d show "weight_name \<notin> set (sampled_params c)" "weight_name \<notin> set (derived_params c)"
    "weight_name \<notin> set (minuslogprior_names c)" "weight_name \<notin> set (chi2_names c)"
    by auto
  from d show "minuslogpost_name \<notin> set (sampled_params c)" "minuslogpost_name \<notin> set (derived_params c)"
    "minuslogpost_name \<notin> set (minuslogprior_names c)" "minuslogpost_name \<notin> set (chi2_names c)"
    by auto
  from d show "minuslogprior_name \<notin> set (sampled_params c)" "minuslogprior_name \<notin> set (derived_params c)"
    "minuslogprior_name \<notin> set (minuslogprior_names c)" "minuslogprior_name \<notin> set (chi2_names c)"
    by auto
  from d show "chi2_name \<notin> set (sampled_params c)" "chi2_name \<notin> set (derived_params c)"
    "chi2_name \<notin> set (minuslogprior_names c)" "chi2_name \<notin> set (chi2_names c)"
    by auto
  from d show "set (minuslogprior_names c) \<inter> set (sampled_params c) = {}"
    "set (minuslogprior_names c) \<inter> set (derived_params c) = {}"
    "set (minuslogprior_names c) \<inter> set (chi2_names c) = {}"
    "set (chi2_names c) \<inter> set (sampled_params c) = {}"
    "set (sampled_params c) \<inter> set (derived_params c) = {}"
    by auto
qed

lemma names_distinct:
  "weight_name \<noteq> minuslogpost_name" "weight_name \<noteq> minuslogprior_name" "weight_name \<noteq> chi2_name"
  "minuslogpost_name \<noteq> minuslogprior_name" "minuslogpost_name \<noteq> chi2_name"
  "minuslogprior_name \<noteq> chi2_name"
  by (simp_all add: weight_name_def minuslogpost_name_def minuslogprior_name_def chi2_name_def)

subsection \<open>What an append stores\<close>

lemma add_dict_lookup:
  assumes wf: "wf c"
    and ad: "add_dict c d vals deriv w logpost logpriors loglikes = Inr d'"
  shows "map_of d' weight_name = Some (Num w)"
    and "logpost = Some lp \<Longrightarrow> map_of d' minuslogpost_name = Some (Num (- lp))"
    and "logpost = None \<Longrightarrow> logpriors = Some lps \<Longrightarrow> loglikes = Some lls \<Longrightarrow>
           map_of d' minuslogpost_name = Some (Num (- (sum_list lps + sum_list lls)))"
    and "logpriors = Some lps \<Longrightarrow> map_of d' minuslogprior_name = Some (Num (- sum_list lps))"
    and "loglikes = Some lls \<Longrightarrow> map_of d' chi2_name = Some (Num (- 2 * sum_list lls))"
    and "logpriors = None \<Longrightarrow> map_of d' minuslogprior_name = map_of d minuslogprior_name"
    and "loglikes = None \<Longrightarrow> map_of d' chi2_name = map_of d chi2_name"
proof -
  note n = wf_names[OF wf] names_distinct
  from add_dict_map_of[OF ad] obtain lp0 where
    lp0: "logpost = Some lp0 \<or>
               (logpost = None \<and> (\<exists>lps lls. logpriors = Some lps \<and> loglikes = Some lls
                                    \<and> lp0 = sum_list lps + sum_list lls))"
    and m: "map_of d' =
              (let m2 = (map_of d)(weight_name \<mapsto> Num w, minuslogpost_name \<mapsto> Num (- lp0));
                   m3 = (case logpriors of
                           None \<Rightarrow> m2
                         | Some lps \<Rightarrow>
                             (m2(minuslogprior_names c [\<mapsto>] map (\<lambda>v. Num (- v)) lps))
                               (minuslogprior_name \<mapsto> Num (- sum_list lps)));
                   m4 = (case loglikes of
                           None \<Rightarrow> m3
                         | Some lls \<Rightarrow>
                             (m3(chi2_names c [\<mapsto>] map (\<lambda>v. Num (- 2 * v)) lls))
                               (chi2_name \<mapsto> Num (- 2 * sum_list lls)));
                   m5 = m4(sampled_params c [\<mapsto>] map Num vals)
               in case deriv of None \<Rightarrow> m5 | Some ds \<Rightarrow> m5(derived_params c [\<mapsto>] map Num ds))"
    by blast
  show "map_of d' weight_name = Some (Num w)"
    unfolding m using n by (simp add: Let_def split: option.splits)
  show "logpost = Some lp \<Longrightarrow> map_of d' minuslogpost_name = Some (Num (- lp))"
    unfolding m using n lp0 by (simp add: Let_def split: option.splits)
  show "logpost = None \<Longrightarrow> logpriors = Some lps \<Longrightarrow> loglikes = Some lls \<Longrightarrow>
           map_of d' minuslogpost_name = Some (Num (- (sum_list lps + sum_list lls)))"
    unfolding m using n lp0 by (simp add: Let_def split: option.splits)
  show "logpriors = Some lps \<Longrightarrow> map_of d' minuslogprior_name = Some (Num (- sum_list lps))"
    unfolding m using n by (simp add: Let_def split: option.splits)
  show "loglikes = Some lls \<Longrightarrow> map_of d' chi2_name = Some (Num (- 2 * sum_list lls))"
    unfolding m using n by (simp add: Let_def split: option.splits)
  show "logpriors = None \<Longrightarrow> map_of d' minuslogprior_name = map_of d minuslogprior_name"
    unfolding m using n by (simp add: Let_def split: option.splits)
  show "loglikes = None \<Longrightarrow> map_of d' chi2_name = map_of d chi2_name"
    unfolding m using n by (simp add: Let_def split: option.splits)
qed


lemma add_dict_lookup_components:
  assumes wf: "wf c"
    and ad: "add_dict c d vals deriv w logpost logpriors loglikes = Inr d'"
  shows "logpriors = Some lps \<Longrightarrow> i < length lps \<Longrightarrow> i < length (minuslogprior_names c) \<Longrightarrow>
           map_of d' (minuslogprior_names c ! i) = Some (Num (- lps ! i))"
    and "loglikes = Some lls \<Longrightarrow> j < length lls \<Longrightarrow> j < length (chi2_names c) \<Longrightarrow>
           deriv = None \<or> chi2_names c ! j \<notin> set (derived_params c) \<Longrightarrow>
           map_of d' (chi2_names c ! j) = Some (Num (- 2 * lls ! j))"
    and "logpriors = None \<Longrightarrow> name \<in> set (minuslogprior_names c) \<Longrightarrow>
           map_of d' name = map_of d name"
    and "loglikes = None \<Longrightarrow> name \<in> set (chi2_names c) \<Longrightarrow>
           deriv = None \<or> name \<notin> set (derived_params c) \<Longrightarrow>
           map_of d' name = map_of d name"
    and "deriv = None \<Longrightarrow> name \<in> set (derived_params c) \<Longrightarrow> name \<notin> set (chi2_names c) \<Longrightarrow>
           map_of d' name = map_of d name"
proof -
  note n = wf_names[OF wf] names_distinct
  from add_dict_map_of[OF ad] obtain lp0 where
    m: "map_of d' =
              (let m2 = (map_of d)(weight_name \<mapsto> Num w, minuslogpost_name \<mapsto> Num (- lp0));
                   m3 = (case logpriors of
                           None \<Rightarrow> m2
                         | Some lps \<Rightarrow>
                             (m2(minuslogprior_names c [\<mapsto>] map (\<lambda>v. Num (- v)) lps))
                               (minuslogprior_name \<mapsto> Num (- sum_list lps)));
                   m4 = (case loglikes of
                           None \<Rightarrow> m3
                         | Some lls \<Rightarrow>
                             (m3(chi2_names c [\<mapsto>] map (\<lambda>v. Num (- 2 * v)) lls))
                               (chi2_name \<mapsto> Num (- 2 * sum_list lls)));
                   m5 = m4(sampled_params c [\<mapsto>] map Num vals)
               in case deriv of None \<Rightarrow> m5 | Some ds \<Rightarrow> m5(derived_params c [\<mapsto>] map Num ds))"
    by blast
  {
    assume lp: "logpriors = Some lps" and i: "i < length lps" "i < length (minuslogprior_names c)"
    let ?x = "minuslogprior_names c ! i"
    from i have x: "?x \<in> set (minuslogprior_names c)" by simp
    with n have nx: "?x \<noteq> minuslogprior_name" "?x \<noteq> chi2_name" "?x \<notin> set (chi2_names c)"
      "?x \<notin> set (sampled_params c)" "?x \<notin> set (derived_params c)"
      by auto
    have "(m(minuslogprior_names c [\<mapsto>] map (\<lambda>v. Num (- v)) lps)) ?x = Some (Num (- lps ! i))" for m
      using map_upds_nth[of "minuslogprior_names c" i "map (\<lambda>v. Num (- v)) lps" m] n(2) i by simp
    with nx lp show "map_of d' ?x = Some (Num (- lps ! i))"
      unfolding m by (simp add: Let_def split: option.splits)
  }
  {
    assume ll: "loglikes = Some lls" and j: "j < length lls" "j < length (chi2_names c)"
      and dv: "deriv = None \<or> chi2_names c ! j \<notin> set (derived_params c)"
    let ?x = "chi2_names c ! j"
    from j have x: "?x \<in> set (chi2_names c)" by simp
    with n have nx: "?x \<noteq> chi2_name" "?x \<notin> set (sampled_params c)"
      by auto
    have "(m(chi2_names c [\<mapsto>] map (\<lambda>v. Num (- 2 * v)) lls)) ?x = Some (Num (- 2 * lls ! j))" for m
      using map_upds_nth[of "chi2_names c" j "map (\<lambda>v. Num (- 2 * v)) lls" m] n(3) j by simp
    with nx ll dv show "map_of d' ?x = Some (Num (- 2 * lls ! j))"
      unfolding m by (auto simp add: Let_def split: option.splits)
  }
  {
    assume lp: "logpriors = None" and x: "name \<in> set (minuslogprior_names c)"
    with n have nx: "name \<noteq> minuslogprior_name" "name \<noteq> chi2_name" "name \<notin> set (chi2_names c)"
      "name \<notin> set (sampled_params c)" "name \<notin> set (derived_params c)"
      "name \<noteq> weight_name" "name \<noteq> minuslogpost_name"
      by auto
    with lp show "map_of d' name = map_of d name"
      unfolding m by (simp add: Let_def split: option.splits)
  }
  {
    assume ll: "loglikes = None" and x: "name \<in> set (chi2_names c)"
      and dv: "deriv = None \<or> name \<notin> set (derived_params c)"
    with n have nx: "name \<noteq> minuslogprior_name" "name \<noteq> chi2_name" "name \<notin> set (minuslogprior_names c)"
      "name \<notin> set (sampled_params c)"
      "name \<noteq> weight_name" "name \<noteq> minuslogpost_name"
      by auto
    with ll dv show "map_of d' name = map_of d name"
      unfolding m by (auto simp add: Let_def split: option.splits)
  }
  {
    assume dv: "deriv = None" and x: "name \<in> set (derived_params c)" "name \<notin> set (chi2_names c)"
    with n have nx: "name \<noteq> minuslogprior_name" "name \<noteq> chi2_name" "name \<notin> set (minuslogprior_names c)"
      "name \<notin> set (sampled_params c)"
      "name \<noteq> weight_name" "name \<noteq> minuslogpost_name"
      by auto
    with dv x show "map_of d' name = map_of d name"
      unfolding m by (auto simp add: Let_def split: option.splits)
  }
qed

lemma add_dict_lookup_values:
  assumes wf: "wf c"
    and ad: "add_dict c d vals deriv w logpost logpriors loglikes = Inr d'"
  shows "i < length (sampled_params c) \<Longrightarrow>
           map_of d' (sampled_params c ! i) = Some (Num (vals ! i))"
    and "deriv = Some ds \<Longrightarrow> distinct (derived_params c) \<Longrightarrow> k < length (derived_params c) \<Longrightarrow>
           map_of d' (derived_params c ! k) = Some (Num (ds ! k))"
proof -
  note n = wf_names[OF wf] names_distinct
  from add_dict_map_of[OF ad] obtain lp0 where
    lv: "length vals = length (sampled_params c)"
    and ld: "\<forall>ds. deriv = Some ds \<longrightarrow> length ds = length (derived_params c)"
    and m: "map_of d' =
              (let m2 = (map_of d)(weight_name \<mapsto> Num w, minuslogpost_name \<mapsto> Num (- lp0));
                   m3 = (case logpriors of
                           None \<Rightarrow> m2
                         | Some lps \<Rightarrow>
                             (m2(minuslogprior_names c [\<mapsto>] map (\<lambda>v. Num (- v)) lps))
                               (minuslogprior_name \<mapsto> Num (- sum_list lps)));
                   m4 = (case loglikes of
                           None \<Rightarrow> m3
                         | Some lls \<Rightarrow>
                             (m3(chi2_names c [\<mapsto>] map (\<lambda>v. Num (- 2 * v)) lls))
                               (chi2_name \<mapsto> Num (- 2 * sum_list lls)));
                   m5 = m4(sampled_params c [\<mapsto>] map Num vals)
               in case deriv of None \<Rightarrow> m5 | Some ds \<Rightarrow> m5(derived_params c [\<mapsto>] map Num ds))"
    by blast
  {
    assume i: "i < length (sampled_params c)"
    let ?x = "sampled_params c ! i"
    from i have "?x \<in> set (sampled_params c)" by simp
    with n have nx: "?x \<notin> set (derived_params c)" by auto
    have "(m(sampled_params c [\<mapsto>] map Num vals)) ?x = Some (Num (vals ! i))" for m
      using map_upds_nth[of "sampled_params c" i "map Num vals" m] n(1) i lv by simp
    with nx show "map_of d' ?x = Some (Num (vals ! i))"
      unfolding m by (simp add: Let_def split: option.splits)
  }
  {
    assume dv: "deriv = Some ds" and di: "distinct (derived_params c)"
      and k: "k < length (derived_params c)"
    from ld dv have "length ds = length (derived_params c)" by simp
    with k di have "(m(derived_params c [\<mapsto>] map Num ds)) (derived_params c ! k) = Some (Num (ds ! k))" for m
      using map_upds_nth[of "derived_params c" k "map Num ds" m] by simp
    with dv show "map_of d' (derived_params c ! k) = Some (Num (ds ! k))"
      unfolding m by (simp add: Let_def)
  }
qed

text \<open>
  C4. The claim has every likelihood column \<open>j\<close> of the row hold \<open>- 2 * loglikes[j]\<close>.
  The counterexample: a derived parameter may bear the name of a likelihood column (the
  constructor expects it and leaves such a name out of the derived columns, "would be
  duplicate cols"), and \<^verbatim>\<open>_add_dict\<close> assigns the derived values last, under the
  parameters' names. With the derived parameter \<^verbatim>\<open>chi2__1\<close>, the derived value 8 and
  the log-likelihood \<open>- 2\<close>, the column \<^verbatim>\<open>chi2__1\<close> of the row holds 8, not 4.
\<close>

theorem chi2_column_holds_derived_value:
  "wf (Collection_init overlap_model False 2) \<and>
   chi2_names (Collection_init overlap_model False 2) = [''chi2__1''] \<and>
   derived_params (Collection_init overlap_model False 2) = [''chi2__1''] \<and>
   (case Collection_add default_settings [1] (Some [8]) 1 None (Some [- 1]) (Some [- 2])
           (Collection_init overlap_model False 2) of
      Inl x \<Rightarrow> False
    | Inr c' \<Rightarrow>
        cell_at c' 0 ''chi2__1'' = Some (Num 8) \<and>
        cell_at c' 0 ''chi2__1'' \<noteq> Some (Num (- 2 * [- 2] ! 0)))"
proof -
  let ?c = "Collection_init overlap_model False 2"
  have cols: "columns ?c = [''weight'', ''minus_log_posterior'', ''a'',
       ''minus_log_prior'', ''minus_log_prior__0'', ''chi2'', ''chi2__1'']"
    by (simp add: Collection_init_def Let_def overlap_model_def weight_name_def
        minuslogpost_name_def minuslogprior_name_def chi2_name_def separator_def)
  have "wf ?c" by (rule Collection_init_wf) (simp add: cols)
  moreover have "chi2_names ?c = [''chi2__1'']" "derived_params ?c = [''chi2__1'']"
    by (simp_all add: Collection_init_fields overlap_model_def chi2_name_def separator_def)
  moreover have
    "(case Collection_add default_settings [1] (Some [8]) 1 None (Some [- 1]) (Some [- 2]) ?c of
      Inl x \<Rightarrow> False
    | Inr c' \<Rightarrow>
        cell_at c' 0 ''chi2__1'' = Some (Num 8) \<and>
        cell_at c' 0 ''chi2__1'' \<noteq> Some (Num (- 2 * [- 2] ! 0)))"
    by (simp add: Collection_add_def add_dict_def sum_logpost_def py_sum_def
        except_ValueError_def Let_def enlarge_if_needed_def Collection_init_def overlap_model_def
        setitem_def assign_zip_def weight_name_def minuslogpost_name_def minuslogprior_name_def
        chi2_name_def separator_def default_settings_def cell_at_def nan_rows_def)
  ultimately show ?thesis by blast
qed

text \<open>
  C4, as amended. An append that returns, on a well-formed collection, stores in the row
  it writes (physical row \<open>n_filled c\<close>, and the length grows by one): under
  \<^verbatim>\<open>minus_log_posterior\<close> the negated log-posterior, which is the one given or, when none
  is given, the sum of the log-priors plus the sum of the log-likelihoods; when log-priors
  are given, their negated sum under \<^verbatim>\<open>minus_log_prior\<close> and \<open>- logpriors[i]\<close> under the
  \<open>i\<close>-th prior column; when log-likelihoods are given, \<open>- 2\<close> times their sum under
  \<^verbatim>\<open>chi2\<close> and \<open>- 2 * loglikes[j]\<close> under the \<open>j\<close>-th likelihood column, unless derived
  values are passed and a derived parameter has that column's name; and when derived
  values are passed (the derived parameters having different names), each under the name
  of its parameter, a likelihood column of that name included. The witness is the example
  of the claim: log-priors \<open>[-1]\<close>, log-likelihoods \<open>[-2, -3]\<close>, no log-posterior.
\<close>

theorem stored_row_values:
  assumes wf: "wf c"
    and add: "Collection_add cfg vals deriv w logpost logpriors loglikes c = Inr c'"
  shows "len c' = len c + 1
       \<and> (\<forall>lp. logpost = Some lp \<longrightarrow>
             cell_at c' (n_filled c) minuslogpost_name = Some (Num (- lp)))
       \<and> (\<forall>lps lls. logpost = None \<longrightarrow> logpriors = Some lps \<longrightarrow> loglikes = Some lls \<longrightarrow>
             cell_at c' (n_filled c) minuslogpost_name
               = Some (Num (- (sum_list lps + sum_list lls))))
       \<and> (\<forall>lps. logpriors = Some lps \<longrightarrow>
             cell_at c' (n_filled c) minuslogprior_name = Some (Num (- sum_list lps))
             \<and> (\<forall>i. i < length lps \<longrightarrow> i < length (minuslogprior_names c) \<longrightarrow>
                    cell_at c' (n_filled c) (minuslogprior_names c ! i) = Some (Num (- lps ! i))))
       \<and> (\<forall>lls. loglikes = Some lls \<longrightarrow>
             cell_at c' (n_filled c) chi2_name = Some (Num (- 2 * sum_list lls))
             \<and> (\<forall>j. j < length lls \<longrightarrow> j < length (chi2_names c) \<longrightarrow>
                    (deriv = None \<or> chi2_names c ! j \<notin> set (derived_params c)) \<longrightarrow>
                    cell_at c' (n_filled c) (chi2_names c ! j) = Some (Num (- 2 * lls ! j))))
       \<and> (\<forall>ds. deriv = Some ds \<longrightarrow> distinct (derived_params c) \<longrightarrow>
             (\<forall>k. k < length (derived_params c) \<longrightarrow>
                    cell_at c' (n_filled c) (derived_params c ! k) = Some (Num (ds ! k))))"
proof -
  note a = Collection_add_Inr[OF wf add]
  from a have ad: "add_dict c (value_dict c) vals deriv w logpost logpriors loglikes
                   = Inr (value_dict c')" by simp
  note r = Collection_add_row[OF wf add]
  note l = add_dict_lookup[OF wf ad] add_dict_lookup_components[OF wf ad]
  from a have "len c' = len c + 1" by (simp add: len_def)
  moreover have "logpost = Some lp \<longrightarrow>
             cell_at c' (n_filled c) minuslogpost_name = Some (Num (- lp))" for lp
    unfolding r using l(2) by simp
  moreover have "logpost = None \<longrightarrow> logpriors = Some lps \<longrightarrow> loglikes = Some lls \<longrightarrow>
             cell_at c' (n_filled c) minuslogpost_name
               = Some (Num (- (sum_list lps + sum_list lls)))" for lps lls
    unfolding r using l(3) by simp
  moreover have "logpriors = Some lps \<longrightarrow>
             cell_at c' (n_filled c) minuslogprior_name = Some (Num (- sum_list lps))
             \<and> (\<forall>i. i < length lps \<longrightarrow> i < length (minuslogprior_names c) \<longrightarrow>
                    cell_at c' (n_filled c) (minuslogprior_names c ! i) = Some (Num (- lps ! i)))" for lps
    unfolding r using l(4) l(8) by simp
  moreover have "loglikes = Some lls \<longrightarrow>
             cell_at c' (n_filled c) chi2_name = Some (Num (- 2 * sum_list lls))
             \<and> (\<forall>j. j < length lls \<longrightarrow> j < length (chi2_names c) \<longrightarrow>
                    (deriv = None \<or> chi2_names c ! j \<notin> set (derived_params c)) \<longrightarrow>
                    cell_at c' (n_filled c) (chi2_names c ! j) = Some (Num (- 2 * lls ! j)))" for lls
    unfolding r using l(5) l(9) by simp
  moreover have "deriv = Some ds \<longrightarrow> distinct (derived_params c) \<longrightarrow>
             (\<forall>k. k < length (derived_params c) \<longrightarrow>
                    cell_at c' (n_filled c) (derived_params c ! k) = Some (Num (ds ! k)))" for ds
    unfolding r using add_dict_lookup_values(2)[OF wf ad] by simp
  ultimately show ?thesis by blast
qed

theorem stored_row_values_witness:
  "\<exists>c'. Collection_add default_settings [1, 2] None 1 None (Some [- 1]) (Some [- 2, - 3])
           (Collection_init example_model False 100) = Inr c'
      \<and> len c' = 1
      \<and> cell_at c' 0 ''minus_log_posterior'' = Some (Num 6)
      \<and> cell_at c' 0 ''minus_log_prior'' = Some (Num 1)
      \<and> cell_at c' 0 ''minus_log_prior__0'' = Some (Num 1)
      \<and> cell_at c' 0 ''chi2'' = Some (Num 10)
      \<and> cell_at c' 0 ''chi2__1'' = Some (Num 4)
      \<and> cell_at c' 0 ''chi2__2'' = Some (Num 6)"
proof -
  let ?c = "Collection_init example_model False 100"
  have cols: "columns ?c = [''weight'', ''minus_log_posterior'', ''a'', ''b'', ''d'',
       ''minus_log_prior'', ''minus_log_prior__0'', ''chi2'', ''chi2__1'', ''chi2__2'']"
    by (simp add: Collection_init_def Let_def example_model_def weight_name_def
        minuslogpost_name_def minuslogprior_name_def chi2_name_def separator_def)
  have wf: "wf ?c" by (rule Collection_init_wf) (simp add: cols)
  have f: "n_filled ?c = 0" "len ?c = 0"
    "minuslogprior_names ?c = [''minus_log_prior__0'']"
    "chi2_names ?c = [''chi2__1'', ''chi2__2'']"
    by (simp_all add: Collection_init_fields len_def example_model_def
        minuslogprior_name_def chi2_name_def separator_def)
  have "\<exists>c'. Collection_add default_settings [1, 2] None 1 None (Some [- 1]) (Some [- 2, - 3]) ?c
              = Inr c'"
    by (simp add: Collection_add_def add_dict_def sum_logpost_def py_sum_def
        except_ValueError_def Let_def enlarge_if_needed_def Collection_init_def example_model_def
        setitem_def assign_zip_def weight_name_def minuslogpost_name_def minuslogprior_name_def
        chi2_name_def separator_def default_settings_def)
  then obtain c' where add:
    "Collection_add default_settings [1, 2] None 1 None (Some [- 1]) (Some [- 2, - 3]) ?c = Inr c'"
    by blast
  note t = stored_row_values[OF wf add, unfolded f]
  from t have 1: "len c' = 1" by simp
  from t have 2: "cell_at c' 0 minuslogpost_name = Some (Num (- (sum_list [- 1] + sum_list [- 2, - 3])))"
    by blast
  from t have 3: "cell_at c' 0 minuslogprior_name = Some (Num (- sum_list [- 1]))"
    and 4: "\<forall>i. i < length [- 1 :: real] \<longrightarrow> i < length [''minus_log_prior__0''] \<longrightarrow>
                    cell_at c' 0 ([''minus_log_prior__0''] ! i) = Some (Num (- [- 1] ! i))"
    by blast+
  from t have 5: "cell_at c' 0 chi2_name = Some (Num (- 2 * sum_list [- 2, - 3]))"
    and 6: "\<forall>j. j < length [- 2, - 3 :: real] \<longrightarrow> j < length [''chi2__1'', ''chi2__2''] \<longrightarrow>
                    (None = (None :: real list option) \<or> [''chi2__1'', ''chi2__2''] ! j \<notin> set (derived_params ?c)) \<longrightarrow>
                    cell_at c' 0 ([''chi2__1'', ''chi2__2''] ! j) = Some (Num (- 2 * [- 2, - 3] ! j))"
    by blast+
  from 4[rule_format, of 0] have p0: "cell_at c' 0 ''minus_log_prior__0'' = Some (Num 1)" by simp
  from 6[rule_format, of 0] have l0: "cell_at c' 0 ''chi2__1'' = Some (Num 4)" by simp
  from 6[rule_format, of 1] have l1: "cell_at c' 0 ''chi2__2'' = Some (Num 6)" by simp
  from add 1 2 3 p0 5 l0 l1 show ?thesis
    by (simp add: minuslogpost_name_def minuslogprior_name_def chi2_name_def)
qed

subsection \<open>Components that an append leaves out\<close>

lemma map_of_fold_setitem_NaN:
  "name \<in> set cols \<Longrightarrow> map_of (fold (\<lambda>p d. setitem d p NaN) cols d) name = Some NaN"
proof (induction cols arbitrary: d rule: rev_induct)
  case Nil
  then show ?case by simp
next
  case (snoc a cols)
  show ?case
  proof (cases "name = a")
    case True
    then show ?thesis by (simp add: map_of_setitem)
  next
    case False
    with snoc show ?thesis by (simp add: map_of_setitem)
  qed
qed

lemma Collection_init_value_dict:
  "name \<in> set (columns (Collection_init m output k)) \<Longrightarrow>
   map_of (value_dict (Collection_init m output k)) name = Some NaN"
proof -
  have v: "value_dict (Collection_init m output k)
           = fold (\<lambda>p d. setitem d p NaN) (columns (Collection_init m output k)) []"
    by (simp add: Collection_init_def Let_def)
  show "name \<in> set (columns (Collection_init m output k)) \<Longrightarrow>
   map_of (value_dict (Collection_init m output k)) name = Some NaN"
    unfolding v by (rule map_of_fold_setitem_NaN)
qed

lemma omitted_columns_keep_dict_entry:
  assumes wf: "wf c"
    and add: "Collection_add cfg vals deriv w logpost logpriors loglikes c = Inr c'"
  shows "logpriors = None \<Longrightarrow> name \<in> set (minuslogprior_name # minuslogprior_names c) \<Longrightarrow>
           cell_at c' (n_filled c) name = map_of (value_dict c) name"
    and "loglikes = None \<Longrightarrow> name \<in> set (chi2_name # chi2_names c) \<Longrightarrow>
           deriv = None \<or> name \<notin> set (derived_params c) \<Longrightarrow>
           cell_at c' (n_filled c) name = map_of (value_dict c) name"
    and "deriv = None \<Longrightarrow> name \<in> set (derived_params c) \<Longrightarrow> name \<notin> set (chi2_names c) \<Longrightarrow>
           cell_at c' (n_filled c) name = map_of (value_dict c) name"
proof -
  note a = Collection_add_Inr[OF wf add]
  from a have ad: "add_dict c (value_dict c) vals deriv w logpost logpriors loglikes
                   = Inr (value_dict c')" by simp
  note r = Collection_add_row[OF wf add]
  note l = add_dict_lookup[OF wf ad] add_dict_lookup_components[OF wf ad]
  show "logpriors = None \<Longrightarrow> name \<in> set (minuslogprior_name # minuslogprior_names c) \<Longrightarrow>
           cell_at c' (n_filled c) name = map_of (value_dict c) name"
    unfolding r using l(6) l(10) by auto
  show "loglikes = None \<Longrightarrow> name \<in> set (chi2_name # chi2_names c) \<Longrightarrow>
           deriv = None \<or> name \<notin> set (derived_params c) \<Longrightarrow>
           cell_at c' (n_filled c) name = map_of (value_dict c) name"
    unfolding r using l(7) l(11) by auto
  show "deriv = None \<Longrightarrow> name \<in> set (derived_params c) \<Longrightarrow> name \<notin> set (chi2_names c) \<Longrightarrow>
           cell_at c' (n_filled c) name = map_of (value_dict c) name"
    unfolding r using l(12) by auto
qed

lemma add_needs_logpost:
  assumes "Collection_add cfg vals deriv w logpost logpriors loglikes c = Inr c'"
    and "logpriors = None \<or> loglikes = None"
  shows "logpost \<noteq> None"
proof
  assume "logpost = None"
  with assms(2) have "\<exists>x. Collection_add cfg vals deriv w logpost logpriors loglikes c = Inl x"
    by (auto simp add: Collection_add_def add_dict_def sum_logpost_def py_sum_def
        except_ValueError_def Let_def split: option.splits)
  with assms(1) show False by auto
qed

text \<open>
  C10. The value dictionary is shared by all appends and never cleared. Take two appends
  in a row that return, on a well-formed collection; they write the physical rows
  \<open>n_filled c\<close> and \<open>n_filled c + 1\<close>. If the second gives no log-priors, then it gave a
  log-posterior, and its row holds under \<^verbatim>\<open>minus_log_prior\<close> and under every prior
  column what the first row holds there (the negated sum of the first append's
  log-priors, when it gave some), not not-a-number. The same goes for the likelihood
  columns when the second append gives no log-likelihoods, and for the derived columns
  when it gives no derived values. In a collection just created, a first append without
  log-priors stores not-a-number in the prior columns.
\<close>

theorem stale_components_carry_over:
  assumes wf: "wf c"
    and add1: "Collection_add cfg vals1 deriv1 w1 logpost1 logpriors1 loglikes1 c = Inr c1"
    and add2: "Collection_add cfg' vals2 deriv2 w2 logpost2 logpriors2 loglikes2 c1 = Inr c2"
  shows "n_filled c1 = Suc (n_filled c) \<and> len c2 = len c + 2
       \<and> (logpriors2 = None \<longrightarrow> logpost2 \<noteq> None
            \<and> (\<forall>name \<in> set (minuslogprior_name # minuslogprior_names c).
                  cell_at c2 (Suc (n_filled c)) name = cell_at c2 (n_filled c) name)
            \<and> (\<forall>lps. logpriors1 = Some lps \<longrightarrow>
                  cell_at c2 (Suc (n_filled c)) minuslogprior_name = Some (Num (- sum_list lps))))
       \<and> (loglikes2 = None \<longrightarrow> logpost2 \<noteq> None
            \<and> (\<forall>name \<in> set (chi2_name # chi2_names c).
                  (deriv2 = None \<or> name \<notin> set (derived_params c)) \<longrightarrow>
                  cell_at c2 (Suc (n_filled c)) name = cell_at c2 (n_filled c) name))
       \<and> (deriv2 = None \<longrightarrow>
            (\<forall>name \<in> set (derived_params c). name \<notin> set (chi2_names c) \<longrightarrow>
                  cell_at c2 (Suc (n_filled c)) name = cell_at c2 (n_filled c) name))
       \<and> (\<forall>m output k. c = Collection_init m output k \<longrightarrow> logpriors1 = None \<longrightarrow>
            (\<forall>name \<in> set (minuslogprior_name # minuslogprior_names c).
                  cell_at c2 (n_filled c) name = Some NaN))"
proof -
  note a1 = Collection_add_Inr[OF wf add1]
  have wf1: "wf c1" by (rule Collection_add_wf[OF wf add1])
  note a2 = Collection_add_Inr[OF wf1 add2]
  from a1 have e: "n_filled c1 = Suc (n_filled c)" "minuslogprior_names c1 = minuslogprior_names c"
    "chi2_names c1 = chi2_names c" "derived_params c1 = derived_params c"
    by simp_all
  from a1 a2 have len: "len c2 = len c + 2" by (simp add: len_def)
  have row0: "cell_at c2 (n_filled c) name = map_of (value_dict c1) name" for name
    using Collection_add_other_rows[OF wf1 add2, of "n_filled c" name]
      Collection_add_row[OF wf add1, of name] e by simp
  note o = omitted_columns_keep_dict_entry[OF wf1 add2, unfolded e]
  have p: "logpriors2 = None \<longrightarrow> logpost2 \<noteq> None
            \<and> (\<forall>name \<in> set (minuslogprior_name # minuslogprior_names c).
                  cell_at c2 (Suc (n_filled c)) name = cell_at c2 (n_filled c) name)
            \<and> (\<forall>lps. logpriors1 = Some lps \<longrightarrow>
                  cell_at c2 (Suc (n_filled c)) minuslogprior_name = Some (Num (- sum_list lps)))"
  proof (intro impI conjI ballI allI)
    assume n: "logpriors2 = None"
    with add_needs_logpost[OF add2] show "logpost2 \<noteq> None" by simp
    show "cell_at c2 (Suc (n_filled c)) name = cell_at c2 (n_filled c) name"
      if "name \<in> set (minuslogprior_name # minuslogprior_names c)" for name
      using o(1)[OF n that] row0 by simp
    show "cell_at c2 (Suc (n_filled c)) minuslogprior_name = Some (Num (- sum_list lps))"
      if "logpriors1 = Some lps" for lps
    proof -
      from a1 have ad: "add_dict c (value_dict c) vals1 deriv1 w1 logpost1 logpriors1 loglikes1
                   = Inr (value_dict c1)" by simp
      from o(1)[OF n, of minuslogprior_name] add_dict_lookup(4)[OF wf ad that]
      show ?thesis by simp
    qed
  qed
  have l: "loglikes2 = None \<longrightarrow> logpost2 \<noteq> None
            \<and> (\<forall>name \<in> set (chi2_name # chi2_names c).
                  (deriv2 = None \<or> name \<notin> set (derived_params c)) \<longrightarrow>
                  cell_at c2 (Suc (n_filled c)) name = cell_at c2 (n_filled c) name)"
  proof (intro impI conjI ballI)
    assume n: "loglikes2 = None"
    with add_needs_logpost[OF add2] show "logpost2 \<noteq> None" by simp
    show "cell_at c2 (Suc (n_filled c)) name = cell_at c2 (n_filled c) name"
      if "name \<in> set (chi2_name # chi2_names c)"
        and "deriv2 = None \<or> name \<notin> set (derived_params c)" for name
      using o(2)[OF n that] row0 by simp
  qed
  have d: "deriv2 = None \<longrightarrow>
            (\<forall>name \<in> set (derived_params c). name \<notin> set (chi2_names c) \<longrightarrow>
                  cell_at c2 (Suc (n_filled c)) name = cell_at c2 (n_filled c) name)"
    using o(3) row0 by simp
  have f: "\<forall>m output k. c = Collection_init m output k \<longrightarrow> logpriors1 = None \<longrightarrow>
            (\<forall>name \<in> set (minuslogprior_name # minuslogprior_names c).
                  cell_at c2 (n_filled c) name = Some NaN)"
  proof (intro allI impI ballI)
    fix m outp k name
    assume c: "c = Collection_init m outp k" and n: "logpriors1 = None"
      and name: "name \<in> set (minuslogprior_name # minuslogprior_names c)"
    from wf have "columns c = [weight_name, minuslogpost_name] @ sampled_params c
                 @ filter (\<lambda>p. p \<notin> set (chi2_names c)) (derived_params c)
                 @ [minuslogprior_name] @ minuslogprior_names c
                 @ [chi2_name] @ chi2_names c" unfolding wf_def by blast
    with name have "name \<in> set (columns c)" by auto
    then have "map_of (value_dict c) name = Some NaN"
      unfolding c by (rule Collection_init_value_dict)
    moreover have "cell_at c2 (n_filled c) name = cell_at c1 (n_filled c) name"
      using Collection_add_other_rows[OF wf1 add2, of "n_filled c" name] e by simp
    ultimately show "cell_at c2 (n_filled c) name = Some NaN"
      using omitted_columns_keep_dict_entry(1)[OF wf add1 n name] by simp
  qed
  from e(1) len p l d f show ?thesis by blast
qed


theorem stale_components_carry_over_witness:
  "\<exists>c1 c2.
     Collection_add default_settings [1, 2] None 1 None (Some [- 1]) (Some [- 2, - 3])
       (Collection_init example_model False 100) = Inr c1
     \<and> Collection_add default_settings [3, 4] None 1 (Some (- 7)) None None c1 = Inr c2
     \<and> len c2 = 2
     \<and> cell_at c2 1 ''minus_log_prior'' = Some (Num 1)
     \<and> cell_at c2 0 ''minus_log_prior'' = Some (Num 1)
     \<and> cell_at c2 1 ''minus_log_prior__0'' = cell_at c2 0 ''minus_log_prior__0''
     \<and> cell_at c2 1 ''chi2__2'' = cell_at c2 0 ''chi2__2''"
proof -
  let ?c = "Collection_init example_model False 100"
  have cols: "columns ?c = [''weight'', ''minus_log_posterior'', ''a'', ''b'', ''d'',
       ''minus_log_prior'', ''minus_log_prior__0'', ''chi2'', ''chi2__1'', ''chi2__2'']"
    by (simp add: Collection_init_def Let_def example_model_def weight_name_def
        minuslogpost_name_def minuslogprior_name_def chi2_name_def separator_def)
  have wf: "wf ?c" by (rule Collection_init_wf) (simp add: cols)
  have f: "n_filled ?c = 0" "len ?c = 0"
    "minuslogprior_names ?c = [''minus_log_prior__0'']"
    "chi2_names ?c = [''chi2__1'', ''chi2__2'']"
    "derived_params ?c = [''d'']"
    by (simp_all add: Collection_init_fields len_def example_model_def
        minuslogprior_name_def chi2_name_def separator_def)
  have "\<exists>c1 c2.
     Collection_add default_settings [1, 2] None 1 None (Some [- 1]) (Some [- 2, - 3]) ?c = Inr c1
     \<and> Collection_add default_settings [3, 4] None 1 (Some (- 7)) None None c1 = Inr c2"
    by (simp add: Collection_add_def add_dict_def sum_logpost_def py_sum_def
        except_ValueError_def Let_def enlarge_if_needed_def Collection_init_def example_model_def
        setitem_def assign_zip_def weight_name_def minuslogpost_name_def minuslogprior_name_def
        chi2_name_def separator_def default_settings_def)
  then obtain c1 c2 where
    add1: "Collection_add default_settings [1, 2] None 1 None (Some [- 1]) (Some [- 2, - 3]) ?c
           = Inr c1"
    and add2: "Collection_add default_settings [3, 4] None 1 (Some (- 7)) None None c1 = Inr c2"
    by blast
  note t = stale_components_carry_over[OF wf add1 add2, unfolded f]
  from t have 1: "len c2 = 2" by simp
  from t have 2: "cell_at c2 (Suc 0) minuslogprior_name = Some (Num (- sum_list [- 1]))"
    by blast
  from t have 3: "\<forall>name \<in> set [minuslogprior_name, ''minus_log_prior__0''].
                    cell_at c2 (Suc 0) name = cell_at c2 0 name"
    by blast
  from t have 4: "\<forall>name \<in> set [chi2_name, ''chi2__1'', ''chi2__2''].
                    (None = (None :: real list option) \<or> name \<notin> set [''d'']) \<longrightarrow>
                    cell_at c2 (Suc 0) name = cell_at c2 0 name"
    by blast
  from 1 2 3 4 add1 add2 show ?thesis
    by (intro exI[of _ c1] exI[of _ c2]) (simp add: minuslogprior_name_def)
qed

subsection \<open>An append with the wrong number of values\<close>

lemma add_dict_arity_error:
  assumes "logpost \<noteq> None \<or> (logpriors \<noteq> None \<and> loglikes \<noteq> None)"
    and "length vals \<noteq> length (sampled_params c)
         \<or> (\<exists>ds. deriv = Some ds \<and> length ds \<noteq> length (derived_params c))"
  shows "\<exists>e d'. add_dict c d vals deriv w logpost logpriors loglikes = Inl (LoggedError e, d')
           \<and> (e = SampledArity (length vals) (length (sampled_params c))
                \<or> (\<exists>ds. deriv = Some ds
                      \<and> e = DerivedArity (length ds) (length (derived_params c))))"
  using assms
  by (auto simp add: add_dict_def Let_def sum_logpost_def py_sum_def except_ValueError_def
      split: option.splits)

text \<open>
  C9. The claim has the arity error leave the collection unchanged, the failed append
  being atomic. The counterexample: the error is raised after \<^verbatim>\<open>_add_dict\<close> has assigned
  the weight, the posterior, the priors and the likelihoods in the shared value dictionary,
  and nothing restores it. After an append of one value where two are expected, with
  log-priors \<open>[-5]\<close>, the collection differs from the one before, its dictionary holds 5
  under \<^verbatim>\<open>minus_log_prior\<close>, and the next append, which gives a log-posterior and no
  log-priors, stores that 5 in its row.
\<close>

theorem failed_append_changes_collection:
  "(case Collection_add default_settings [1] None 1 None (Some [- 5]) (Some [- 2, - 3])
           (Collection_init example_model False 2) of
      Inr c' \<Rightarrow> False
    | Inl (e, c') \<Rightarrow>
        e = LoggedError (SampledArity 1 2) \<and>
        c' \<noteq> Collection_init example_model False 2 \<and>
        map_of (value_dict (Collection_init example_model False 2)) ''minus_log_prior'' = Some NaN \<and>
        map_of (value_dict c') ''minus_log_prior'' = Some (Num 5) \<and>
        (case Collection_add default_settings [1, 2] None 1 (Some 0) None None c' of
           Inl x \<Rightarrow> False
         | Inr c2 \<Rightarrow> cell_at c2 0 ''minus_log_prior'' = Some (Num 5)))"
  by (simp add: Collection_add_def add_dict_def sum_logpost_def py_sum_def
        except_ValueError_def Let_def enlarge_if_needed_def Collection_init_def example_model_def
        setitem_def assign_zip_def weight_name_def minuslogpost_name_def minuslogprior_name_def
        chi2_name_def separator_def default_settings_def cell_at_def nan_rows_def)

text \<open>
  C9, as amended. When the log-posterior is given or can be derived, and the sampled
  values, or the derived values that were passed, are not as many as the parameters, the
  append raises the arity error; the length is what it was and no row of the table is
  written: the frame is the old one, followed by the rows without a number that growth
  may have added, and the columns are the same.
\<close>

theorem arity_mismatch_writes_no_row:
  assumes "logpost \<noteq> None \<or> (logpriors \<noteq> None \<and> loglikes \<noteq> None)"
    and "length vals \<noteq> length (sampled_params c)
         \<or> (\<exists>ds. deriv = Some ds \<and> length ds \<noteq> length (derived_params c))"
  shows "\<exists>e c'. Collection_add cfg vals deriv w logpost logpriors loglikes c
                 = Inl (LoggedError e, c')
           \<and> (e = SampledArity (length vals) (length (sampled_params c))
                \<or> (\<exists>ds. deriv = Some ds
                      \<and> e = DerivedArity (length ds) (length (derived_params c))))
           \<and> len c' = len c
           \<and> (\<exists>k. data c' = data c @ nan_rows k (length (columns c)))
           \<and> (\<forall>i. i < length (data c) \<longrightarrow> data c' ! i = data c ! i)
           \<and> columns c' = columns c"
proof -
  let ?c1 = "enlarge_if_needed cfg c"
  have n: "add_dict ?c1 = add_dict c" by (rule add_dict_names) simp_all
  from add_dict_arity_error[OF assms, of "value_dict c" w] obtain e d' where
    ad: "add_dict c (value_dict c) vals deriv w logpost logpriors loglikes = Inl (LoggedError e, d')"
    and e: "e = SampledArity (length vals) (length (sampled_params c))
                \<or> (\<exists>ds. deriv = Some ds
                      \<and> e = DerivedArity (length ds) (length (derived_params c)))"
    by blast
  from ad have r: "Collection_add cfg vals deriv w logpost logpriors loglikes c
        = Inl (LoggedError e, ?c1\<lparr>value_dict := d'\<rparr>)"
    by (simp add: Collection_add_def n)
  obtain k where k: "data ?c1 = data c @ nan_rows k (length (columns c))"
    using enlarge_data by blast
  have "len (?c1\<lparr>value_dict := d'\<rparr>) = len c" by (simp add: len_def)
  moreover have "\<exists>k. data (?c1\<lparr>value_dict := d'\<rparr>) = data c @ nan_rows k (length (columns c))"
    using k by auto
  moreover have "\<forall>i. i < length (data c) \<longrightarrow> data (?c1\<lparr>value_dict := d'\<rparr>) ! i = data c ! i"
    using k by (simp add: nth_append)
  moreover have "columns (?c1\<lparr>value_dict := d'\<rparr>) = columns c" by simp
  ultimately show ?thesis using r e by blast
qed

theorem arity_mismatch_writes_no_row_witness:
  "\<exists>c'. Collection_add default_settings [1] None 1 None (Some [- 5]) (Some [- 2, - 3])
           (Collection_init example_model False 2) = Inl (LoggedError (SampledArity 1 2), c')
      \<and> len c' = 0
      \<and> take 2 (data c') = nan_rows 2 10"
proof -
  let ?c = "Collection_init example_model False 2"
  have cl: "length (columns ?c) = 10"
    by (simp add: Collection_init_def Let_def example_model_def)
  have f: "sampled_params ?c = [''a'', ''b'']" "len ?c = 0" "length (columns ?c) = 10"
    "data ?c = nan_rows 2 10" "length (data ?c) = 2"
    using cl Collection_init_fields(10)[of example_model False 2]
    by (simp_all add: Collection_init_fields example_model_def len_def)
  have h1: "(None :: real option) \<noteq> None
            \<or> (Some [- 5 :: real] \<noteq> None \<and> Some [- 2, - 3 :: real] \<noteq> None)"
    by simp
  have h2: "length [1 :: real] \<noteq> length (sampled_params ?c)
         \<or> (\<exists>ds. (None :: real list option) = Some ds \<and> length ds \<noteq> length (derived_params ?c))"
    by (simp add: f)
  from arity_mismatch_writes_no_row[OF h1 h2, of default_settings 1] obtain e c' k where
    r: "Collection_add default_settings [1] None 1 None (Some [- 5]) (Some [- 2, - 3]) ?c
         = Inl (LoggedError e, c')"
    and e: "e = SampledArity (length [1 :: real]) (length (sampled_params ?c))"
    and l: "len c' = len ?c" and d: "data c' = data ?c @ nan_rows k (length (columns ?c))"
    and i: "\<forall>i. i < length (data ?c) \<longrightarrow> data c' ! i = data ?c ! i"
    by auto
  from d have "take 2 (data c') = nan_rows 2 10" by (simp add: f)
  with r e l show ?thesis by (simp add: f)
qed

subsection \<open>OnePoint\<close>

text \<open>
  C2. The claim has the length of a \<^verbatim>\<open>OnePoint\<close> be 1 after every append. The
  counterexample: \<^verbatim>\<open>OnePoint.add\<close> ends with \<^verbatim>\<open>self._n = 0\<close> ("Resets the counter, so
  the DataFrame never fills up!"), so after the first append to a new \<^verbatim>\<open>OnePoint\<close> the
  length is 0, as it was before.
\<close>

theorem OnePoint_length_after_append:
  "(case OnePoint_add default_settings [1, 2] None 1 None (Some [- 1]) (Some [- 2, - 3])
           (OnePoint_init example_model False) of
      Inl x \<Rightarrow> False
    | Inr c' \<Rightarrow> len c' = 0 \<and> len c' \<noteq> 1)"
  by (simp add: OnePoint_add_def OnePoint_init_def len_def Collection_add_def add_dict_def sum_logpost_def py_sum_def
        except_ValueError_def Let_def enlarge_if_needed_def Collection_init_def example_model_def
        setitem_def assign_zip_def weight_name_def minuslogpost_name_def minuslogprior_name_def
        chi2_name_def separator_def default_settings_def nan_rows_def)

lemma OnePoint_init_wf:
  "distinct (columns (OnePoint_init m output)) \<Longrightarrow> wf (OnePoint_init m output)"
  unfolding OnePoint_init_def by (rule Collection_init_wf)

lemma Collection_add_data_no_growth:
  assumes add: "Collection_add cfg vals deriv w logpost logpriors loglikes c = Inr c'"
    and n: "n_filled c < length (data c)"
  shows "data c' = (data c)[n_filled c := map snd (value_dict c')]
         \<and> n_filled c' = Suc (n_filled c)"
proof -
  from n have e: "enlarge_if_needed cfg c = c" by (simp add: enlarge_if_needed_def)
  from add obtain d where
    d: "add_dict c (value_dict c) vals deriv w logpost logpriors loglikes = Inr d"
    unfolding Collection_add_def e Let_def by (auto split: sum.splits)
  from add have "c' = c\<lparr>value_dict := d, data := (data c)[n_filled c := map snd d],
                          n_filled := n_filled c + 1\<rparr>"
    unfolding Collection_add_def e Let_def d by (simp split: if_splits)
  then show ?thesis by simp
qed

lemma wf_reset_count:
  assumes "wf c"
  shows "wf (c\<lparr>n_filled := 0\<rparr>)"
proof -
  let ?c = "c\<lparr>n_filled := 0\<rparr>"
  have e: "sampled_params ?c = sampled_params c" "derived_params ?c = derived_params c"
    "minuslogprior_names ?c = minuslogprior_names c" "chi2_names ?c = chi2_names c"
    "columns ?c = columns c" "value_dict ?c = value_dict c"
    by simp_all
  have n: "n_filled ?c \<le> length (data ?c)" by simp
  have w: "columns c = [weight_name, minuslogpost_name] @ sampled_params c
                 @ filter (\<lambda>p. p \<notin> set (chi2_names c)) (derived_params c)
                 @ [minuslogprior_name] @ minuslogprior_names c
                 @ [chi2_name] @ chi2_names c" "distinct (columns c)"
    "map fst (value_dict c) = columns c"
    using assms unfolding wf_def by blast+
  show ?thesis unfolding wf_def e using w n by blast
qed

text \<open>
  C2, as amended. After every append to a \<^verbatim>\<open>OnePoint\<close> that returns, the length is 0.
  When the append started from length 0 and one physical row, as every append to a
  \<^verbatim>\<open>OnePoint\<close> does, the frame still has that one row, which is the row of the value
  dictionary; and on a well-formed collection that row holds the point just appended: the
  weight, each sampled value under the name of its parameter, each derived value that was
  passed under the name of its parameter, the negated log-posterior (given, or the sum of
  the components), and the negated sum of the log-priors and \<open>- 2\<close> times the sum of the
  log-likelihoods when these were passed. The collection is then again well formed with
  length 0 and one row, so the next append is in the same situation.
\<close>

theorem OnePoint_add_resets_length:
  assumes "OnePoint_add cfg vals deriv w logpost logpriors loglikes c = Inr c'"
  shows "len c' = 0
       \<and> (n_filled c = 0 \<and> length (data c) = 1 \<longrightarrow>
            data c' = [map snd (value_dict c')])
       \<and> (wf c \<and> n_filled c = 0 \<and> length (data c) = 1 \<longrightarrow>
            wf c' \<and> n_filled c' = 0 \<and> length (data c') = 1
            \<and> cell_at c' 0 weight_name = Some (Num w)
            \<and> (\<forall>i. i < length (sampled_params c) \<longrightarrow>
                   cell_at c' 0 (sampled_params c ! i) = Some (Num (vals ! i)))
            \<and> (\<forall>ds. deriv = Some ds \<longrightarrow> distinct (derived_params c) \<longrightarrow>
                  (\<forall>k. k < length (derived_params c) \<longrightarrow>
                     cell_at c' 0 (derived_params c ! k) = Some (Num (ds ! k))))
            \<and> (\<forall>lp. logpost = Some lp \<longrightarrow>
                   cell_at c' 0 minuslogpost_name = Some (Num (- lp)))
            \<and> (\<forall>lps lls. logpost = None \<longrightarrow> logpriors = Some lps \<longrightarrow> loglikes = Some lls \<longrightarrow>
                   cell_at c' 0 minuslogpost_name = Some (Num (- (sum_list lps + sum_list lls))))
            \<and> (\<forall>lps. logpriors = Some lps \<longrightarrow>
                   cell_at c' 0 minuslogprior_name = Some (Num (- sum_list lps)))
            \<and> (\<forall>lls. loglikes = Some lls \<longrightarrow>
                   cell_at c' 0 chi2_name = Some (Num (- 2 * sum_list lls))))"
proof -
  from assms obtain c1 where
    a: "Collection_add cfg vals deriv w logpost logpriors loglikes c = Inr c1"
    and c': "c' = c1\<lparr>n_filled := 0\<rparr>"
    by (auto simp add: OnePoint_add_def split: sum.splits)
  have 1: "len c' = 0" by (simp add: c' len_def)
  have 2: "data c' = [map snd (value_dict c')]"
    if h: "n_filled c = 0 \<and> length (data c) = 1"
  proof -
    from h have "n_filled c < length (data c)" by simp
    from Collection_add_data_no_growth[OF a this] h
    have "data c1 = (data c)[0 := map snd (value_dict c1)]" by simp
    moreover from h obtain r where "data c = [r]" by (cases "data c") auto
    ultimately show ?thesis by (simp add: c')
  qed
  have 3: "wf c' \<and> n_filled c' = 0 \<and> length (data c') = 1
            \<and> cell_at c' 0 weight_name = Some (Num w)
            \<and> (\<forall>i. i < length (sampled_params c) \<longrightarrow>
                   cell_at c' 0 (sampled_params c ! i) = Some (Num (vals ! i)))
            \<and> (\<forall>ds. deriv = Some ds \<longrightarrow> distinct (derived_params c) \<longrightarrow>
                  (\<forall>k. k < length (derived_params c) \<longrightarrow>
                     cell_at c' 0 (derived_params c ! k) = Some (Num (ds ! k))))
            \<and> (\<forall>lp. logpost = Some lp \<longrightarrow>
                   cell_at c' 0 minuslogpost_name = Some (Num (- lp)))
            \<and> (\<forall>lps lls. logpost = None \<longrightarrow> logpriors = Some lps \<longrightarrow> loglikes = Some lls \<longrightarrow>
                   cell_at c' 0 minuslogpost_name = Some (Num (- (sum_list lps + sum_list lls))))
            \<and> (\<forall>lps. logpriors = Some lps \<longrightarrow>
                   cell_at c' 0 minuslogprior_name = Some (Num (- sum_list lps)))
            \<and> (\<forall>lls. loglikes = Some lls \<longrightarrow>
                   cell_at c' 0 chi2_name = Some (Num (- 2 * sum_list lls)))"
    if h: "wf c \<and> n_filled c = 0 \<and> length (data c) = 1"
  proof -
    from h have wf: "wf c" and n0: "n_filled c = 0" and l1: "length (data c) = 1" by simp_all
    note i = Collection_add_Inr[OF wf a]
    from i have ad: "add_dict c (value_dict c) vals deriv w logpost logpriors loglikes
                   = Inr (value_dict c1)" by simp
    have wf1: "wf c1" by (rule Collection_add_wf[OF wf a])
    from 2 h have d: "data c' = [map snd (value_dict c')]" by simp
    have "cell_at c' 0 name = cell_at c1 0 name" for name
      by (simp add: c' cell_at_def)
    then have ce: "cell_at c' 0 name = map_of (value_dict c1) name" for name
      using Collection_add_row[OF wf a, of name] n0 by simp
    have g1: "wf c'" unfolding c' by (rule wf_reset_count[OF wf1])
    have g2: "n_filled c' = 0" by (simp add: c')
    from d have g3: "length (data c') = 1" by simp
    have g4: "cell_at c' 0 weight_name = Some (Num w)"
      unfolding ce by (rule add_dict_lookup(1)[OF wf ad])
    have g5: "\<forall>i. i < length (sampled_params c) \<longrightarrow>
                   cell_at c' 0 (sampled_params c ! i) = Some (Num (vals ! i))"
      unfolding ce using add_dict_lookup_values(1)[OF wf ad] by simp
    have g6: "\<forall>ds. deriv = Some ds \<longrightarrow> distinct (derived_params c) \<longrightarrow>
                  (\<forall>k. k < length (derived_params c) \<longrightarrow>
                     cell_at c' 0 (derived_params c ! k) = Some (Num (ds ! k)))"
      unfolding ce using add_dict_lookup_values(2)[OF wf ad] by simp
    have g7: "\<forall>lp. logpost = Some lp \<longrightarrow>
                   cell_at c' 0 minuslogpost_name = Some (Num (- lp))"
      unfolding ce using add_dict_lookup(2)[OF wf ad] by simp
    have g8: "\<forall>lps lls. logpost = None \<longrightarrow> logpriors = Some lps \<longrightarrow> loglikes = Some lls \<longrightarrow>
                   cell_at c' 0 minuslogpost_name = Some (Num (- (sum_list lps + sum_list lls)))"
      unfolding ce using add_dict_lookup(3)[OF wf ad] by simp
    have g9: "\<forall>lps. logpriors = Some lps \<longrightarrow>
                   cell_at c' 0 minuslogprior_name = Some (Num (- sum_list lps))"
      unfolding ce using add_dict_lookup(4)[OF wf ad] by simp
    have g10: "\<forall>lls. loglikes = Some lls \<longrightarrow>
                   cell_at c' 0 chi2_name = Some (Num (- 2 * sum_list lls))"
      unfolding ce using add_dict_lookup(5)[OF wf ad] by simp
    show ?thesis
      by (intro conjI) (rule g1 g2 g3 g4 g5 g6 g7 g8 g9 g10)+
  qed
  show ?thesis
    by (rule conjI[OF 1], rule conjI, rule impI, erule 2, rule impI, erule 3)
qed

theorem OnePoint_add_resets_length_witness:
  "\<exists>c'. OnePoint_add default_settings [1, 2] None 1 None (Some [- 1]) (Some [- 2, - 3])
           (OnePoint_init example_model False) = Inr c'
      \<and> len c' = 0
      \<and> data c' = [map snd (value_dict c')]
      \<and> length (data c') = 1
      \<and> cell_at c' 0 ''weight'' = Some (Num 1)
      \<and> cell_at c' 0 ''a'' = Some (Num 1)
      \<and> cell_at c' 0 ''b'' = Some (Num 2)
      \<and> cell_at c' 0 ''minus_log_posterior'' = Some (Num 6)
      \<and> cell_at c' 0 ''minus_log_prior'' = Some (Num 1)
      \<and> cell_at c' 0 ''chi2'' = Some (Num 10)"
proof -
  let ?c = "OnePoint_init example_model False"
  have cols: "columns ?c = [''weight'', ''minus_log_posterior'', ''a'', ''b'', ''d'',
       ''minus_log_prior'', ''minus_log_prior__0'', ''chi2'', ''chi2__1'', ''chi2__2'']"
    by (simp add: OnePoint_init_def Collection_init_def Let_def example_model_def weight_name_def
        minuslogpost_name_def minuslogprior_name_def chi2_name_def separator_def)
  have wf: "wf ?c" by (rule OnePoint_init_wf) (simp add: cols)
  have "\<exists>c'. OnePoint_add default_settings [1, 2] None 1 None (Some [- 1]) (Some [- 2, - 3]) ?c
             = Inr c'"
    by (simp add: OnePoint_add_def OnePoint_init_def Collection_add_def add_dict_def
        sum_logpost_def py_sum_def except_ValueError_def Let_def enlarge_if_needed_def
        Collection_init_def example_model_def setitem_def assign_zip_def weight_name_def
        minuslogpost_name_def minuslogprior_name_def chi2_name_def separator_def
        default_settings_def)
  then obtain c' where
    a: "OnePoint_add default_settings [1, 2] None 1 None (Some [- 1]) (Some [- 2, - 3]) ?c = Inr c'"
    by blast
  have f: "n_filled ?c = 0 \<and> length (data ?c) = 1"
    by (simp add: OnePoint_init_def Collection_init_fields)
  have sp: "sampled_params ?c = [''a'', ''b'']"
    by (simp add: OnePoint_init_def Collection_init_fields example_model_def)
  note t = OnePoint_add_resets_length[OF a]
  from t f have b: "len c' = 0" "data c' = [map snd (value_dict c')]"
    by simp_all
  from wf f have h: "wf ?c \<and> n_filled ?c = 0 \<and> length (data ?c) = 1" by simp
  note r = t[THEN conjunct2, THEN conjunct2, THEN mp, OF h]
  from r have w: "cell_at c' 0 weight_name = Some (Num 1)"
    and s: "\<forall>i. i < length (sampled_params ?c) \<longrightarrow>
                   cell_at c' 0 (sampled_params ?c ! i) = Some (Num ([1, 2] ! i))"
    and p: "cell_at c' 0 minuslogpost_name = Some (Num (- (sum_list [- 1] + sum_list [- 2, - 3])))"
    and q: "cell_at c' 0 minuslogprior_name = Some (Num (- sum_list [- 1]))"
    and x: "cell_at c' 0 chi2_name = Some (Num (- 2 * sum_list [- 2, - 3]))"
    by simp_all
  from s[rule_format, of 0] have s0: "cell_at c' 0 ''a'' = Some (Num 1)" by (simp add: sp)
  from s[rule_format, of 1] have s1: "cell_at c' 0 ''b'' = Some (Num 2)" by (simp add: sp)
  from a b w s0 s1 p q x show ?thesis
    by (intro exI[of _ c'])
      (simp add: weight_name_def minuslogpost_name_def minuslogprior_name_def chi2_name_def)
qed

subsection \<open>Flushing the delta\<close>

lemma Collection_add_shape:
  "case Collection_add cfg vals deriv w logpost logpriors loglikes c of
     Inl (e, c') \<Rightarrow> (\<exists>d. c' = (enlarge_if_needed cfg c)\<lparr>value_dict := d\<rparr>)
   | Inr c' \<Rightarrow>
       (\<exists>d. n_filled c < length (data (enlarge_if_needed cfg c))
          \<and> c' = (enlarge_if_needed cfg c)
                  \<lparr>value_dict := d,
                   data := (data (enlarge_if_needed cfg c))[n_filled c := map snd d],
                   n_filled := n_filled c + 1\<rparr>)"
proof -
  let ?c1 = "enlarge_if_needed cfg c"
  show ?thesis
  proof (cases "add_dict ?c1 (value_dict ?c1) vals deriv w logpost logpriors loglikes")
    case (Inl x)
    then show ?thesis
      by (cases x) (auto simp add: Collection_add_def Let_def)
  next
    case (Inr d)
    then show ?thesis
      by (auto simp add: Collection_add_def Let_def)
  qed
qed

lemma flushed_prefix_init: "flushed_prefix (Collection_init m True k)"
  by (simp add: flushed_prefix_def Collection_init_fields)

lemma flushed_prefix_enlarge:
  assumes "flushed_prefix c"
  shows "flushed_prefix (enlarge_if_needed cfg c)"
proof -
  obtain j where j: "data (enlarge_if_needed cfg c) = data c @ nan_rows j (length (columns c))"
    using enlarge_data by blast
  from assms show ?thesis unfolding flushed_prefix_def by (simp add: j)
qed

lemma flushed_prefix_add:
  assumes "flushed_prefix c"
  shows "case Collection_add cfg vals deriv w logpost logpriors loglikes c of
           Inl (e, c') \<Rightarrow> flushed_prefix c'
         | Inr c' \<Rightarrow> flushed_prefix c'"
proof -
  let ?c1 = "enlarge_if_needed cfg c"
  have f1: "flushed_prefix ?c1" by (rule flushed_prefix_enlarge[OF assms])
  note s = Collection_add_shape[where cfg = cfg and vals = vals and deriv = deriv and w = w
      and logpost = logpost and logpriors = logpriors and loglikes = loglikes and c = c]
  show ?thesis
  proof (cases "Collection_add cfg vals deriv w logpost logpriors loglikes c")
    case (Inl x)
    obtain e c' where x: "x = (e, c')" by (cases x)
    from s Inl x obtain d where "c' = ?c1\<lparr>value_dict := d\<rparr>" by auto
    with f1 have "flushed_prefix c'" by (simp add: flushed_prefix_def)
    with Inl x show ?thesis by simp
  next
    case (Inr c')
    from s Inr obtain d where n: "n_filled c < length (data ?c1)"
      and c': "c' = ?c1\<lparr>value_dict := d, data := (data ?c1)[n_filled c := map snd d],
                        n_filled := n_filled c + 1\<rparr>" by auto
    from f1 have l: "n_last_out c \<le> n_filled c" by (simp add: flushed_prefix_def)
    then have "take (n_last_out c) ((data ?c1)[n_filled c := map snd d])
               = take (n_last_out c) (data ?c1)" by simp
    with f1 n c' have "flushed_prefix c'" by (simp add: flushed_prefix_def)
    with Inr show ?thesis by simp
  qed
qed

lemma filter_header_data: "filter is_header (map DataLine rows) = []"
  by (induction rows) (simp_all add: is_header_def)

lemma list_ex_header_data: "\<not> list_ex is_header (map DataLine rows)"
  by (induction rows) (simp_all add: is_header_def)

lemma update_txt_effect:
  assumes "flushed_prefix c"
  shows "\<exists>c1. update_txt c = Inr c1 \<and> flushed_prefix c1 \<and> n_last_out c1 = n_filled c
           \<and> n_filled c1 = n_filled c \<and> data c1 = data c \<and> columns c1 = columns c
           \<and> file_lines c1 = file_lines c
                @ (if n_last_out c = n_filled c then []
                   else (if n_last_out c = 0 then [HeaderLine (columns c)] else [])
                        @ map DataLine (drop (n_last_out c) (take (n_filled c) (data c))))"
proof (cases "n_last_out c = n_filled c")
  case True
  with assms show ?thesis by (simp add: update_txt_def dump_slice_txt_def len_def)
next
  case False
  let ?a = "n_last_out c" and ?b = "n_filled c"
  from assms False have ab: "?a < ?b" "?b \<le> length (data c)" by (simp_all add: flushed_prefix_def)
  then have ne: "drop ?a (take ?b (data c)) \<noteq> []" by simp
  let ?c1 = "c\<lparr>n_last_out := ?b,
               file_lines := file_lines c @ to_string (?a = 0) (columns c) (drop ?a (take ?b (data c)))\<rparr>"
  from False have u: "update_txt c = Inr ?c1"
    by (simp add: update_txt_def dump_slice_txt_def len_def)
  from ne have ts: "to_string (?a = 0) (columns c) (drop ?a (take ?b (data c)))
        = (if ?a = 0 then [HeaderLine (columns c)] else []) @ map DataLine (drop ?a (take ?b (data c)))"
    by (simp add: to_string_def)
  have tk: "take ?a (data c) @ drop ?a (take ?b (data c)) = take ?b (data c)"
  proof -
    from ab have "take ?a (data c) = take ?a (take ?b (data c))" by (simp add: min_def)
    then show ?thesis by (simp only: append_take_drop_id)
  qed
  have fl: "file_lines ?c1 = HeaderLine (columns c) # map DataLine (take ?b (data c))"
  proof (cases "?a = 0")
    case True
    with assms ts show ?thesis by (simp add: flushed_prefix_def)
  next
    case nz: False
    with assms have "file_lines c = HeaderLine (columns c) # map DataLine (take ?a (data c))"
      by (simp add: flushed_prefix_def)
    with nz ts have "file_lines ?c1 = HeaderLine (columns c)
                      # map DataLine (take ?a (data c) @ drop ?a (take ?b (data c)))"
      by simp
    then show ?thesis by (simp only: tk)
  qed
  from assms ab fl have "flushed_prefix ?c1" by (simp add: flushed_prefix_def)
  with u ts False show ?thesis by simp
qed

lemma flushed_prefix_run:
  "flushed_prefix c \<Longrightarrow> flushed_prefix (run_ops cfg ops c)"
proof (induction ops arbitrary: c)
  case Nil
  then show ?case by simp
next
  case (Cons x ops)
  show ?case
  proof (cases x)
    case (Add vals deriv w logpost logpriors loglikes)
    note a = flushed_prefix_add[OF Cons.prems, where cfg = cfg and vals = vals and deriv = deriv
        and w = w and logpost = logpost and logpriors = logpriors and loglikes = loglikes]
    show ?thesis
    proof (cases "Collection_add cfg vals deriv w logpost logpriors loglikes c")
      case (Inl y)
      with a Add show ?thesis by (cases y) simp
    next
      case (Inr c')
      with a have "flushed_prefix c'" by simp
      from Cons.IH[OF this] Inr Add show ?thesis by simp
    qed
  next
    case Update
    from Cons.prems have d: "driver c = Txt" by (simp add: flushed_prefix_def)
    from update_txt_effect[OF Cons.prems] obtain c1 where
      u: "update_txt c = Inr c1" and f: "flushed_prefix c1" by blast
    from Cons.IH[OF f] u d Update show ?thesis by (simp add: out_update_def)
  qed
qed


lemma update_txt_twice:
  assumes "update_txt c = Inr c1"
  shows "update_txt c1 = Inr c1"
proof -
  from assms have "n_last_out c1 = n_filled c1"
    by (auto simp add: update_txt_def dump_slice_txt_def len_def split: if_splits)
  then show ?thesis by (simp add: update_txt_def dump_slice_txt_def len_def)
qed

text \<open>
  C7. Take a collection created with an output, after any run of appends and flushes of
  the delta, and flush the delta. The flush returns, and a second flush right after it
  changes nothing, the file included. The first flush appends a chunk to the file, which
  is empty exactly when the rows flushed so far are all the rows, and which has the
  header line exactly when no row was flushed before and there is a row to flush. The
  file has the header line once when anything was flushed and never otherwise, before
  the flush and after it; after it the file is the header followed by the lines of all
  filled rows.
\<close>

theorem flush_delta_twice_header_once:
  assumes "c = run_ops cfg ops (Collection_init m True k)"
  shows "\<exists>c1 chunk. update_txt c = Inr c1 \<and> update_txt c1 = Inr c1
           \<and> file_lines c1 = file_lines c @ chunk
           \<and> (chunk = [] \<longleftrightarrow> n_last_out c = len c)
           \<and> (list_ex is_header chunk \<longleftrightarrow> n_last_out c = 0 \<and> len c \<noteq> 0)
           \<and> length (filter is_header (file_lines c)) = (if n_last_out c = 0 then 0 else 1)
           \<and> length (filter is_header (file_lines c1)) = (if len c = 0 then 0 else 1)
           \<and> file_lines c1 = (if len c = 0 then []
                               else HeaderLine (columns c) # map DataLine (take (len c) (data c)))"
proof -
  have fp: "flushed_prefix c"
    unfolding assms by (rule flushed_prefix_run[OF flushed_prefix_init])
  let ?a = "n_last_out c" and ?b = "n_filled c"
  let ?chunk = "if ?a = ?b then []
                else (if ?a = 0 then [HeaderLine (columns c)] else [])
                     @ map DataLine (drop ?a (take ?b (data c)))"
  from update_txt_effect[OF fp] obtain c1 where
    u: "update_txt c = Inr c1" and f1: "flushed_prefix c1" and n1: "n_last_out c1 = ?b"
    and e: "n_filled c1 = ?b" "data c1 = data c" "columns c1 = columns c"
    and fl: "file_lines c1 = file_lines c @ ?chunk"
    by blast
  from fp have ab: "?a \<le> ?b" "?b \<le> length (data c)" by (simp_all add: flushed_prefix_def)
  have ne: "?a \<noteq> ?b \<Longrightarrow> drop ?a (take ?b (data c)) \<noteq> []" using ab by simp
  have 1: "update_txt c1 = Inr c1" by (rule update_txt_twice[OF u])
  have 2: "?chunk = [] \<longleftrightarrow> ?a = len c" using ne by (simp add: len_def)
  have 3: "list_ex is_header ?chunk \<longleftrightarrow> ?a = 0 \<and> len c \<noteq> 0"
    using ab by (auto simp add: len_def list_ex_header_data is_header_def)
  from fp have 4: "length (filter is_header (file_lines c)) = (if ?a = 0 then 0 else 1)"
    by (simp add: flushed_prefix_def filter_header_data is_header_def)
  from f1 have f1': "file_lines c1 = (if ?b = 0 then []
                               else HeaderLine (columns c) # map DataLine (take ?b (data c)))"
    by (simp add: flushed_prefix_def n1 e)
  then have 5: "length (filter is_header (file_lines c1)) = (if len c = 0 then 0 else 1)"
    by (simp add: filter_header_data is_header_def len_def)
  from f1' have 6: "file_lines c1 = (if len c = 0 then []
                               else HeaderLine (columns c) # map DataLine (take (len c) (data c)))"
    by (simp add: len_def)
  from u 1 fl 2 3 4 5 6 show ?thesis by blast
qed


theorem flush_delta_twice_header_once_witness:
  "\<exists>c1. update_txt
           (run_ops default_settings
              [Add [1, 2] None 1 None (Some [- 1]) (Some [- 2, - 3]), Update,
               Add [3, 4] None 1 (Some (- 7)) None None]
              (Collection_init example_model True 2)) = Inr c1
      \<and> update_txt c1 = Inr c1
      \<and> length (filter is_header (file_lines c1)) = 1
      \<and> length (file_lines c1) = 3"
proof -
  let ?c = "run_ops default_settings
              [Add [1, 2] None 1 None (Some [- 1]) (Some [- 2, - 3]), Update,
               Add [3, 4] None 1 (Some (- 7)) None None]
              (Collection_init example_model True 2)"
  have f: "len ?c = 2 \<and> length (data ?c) = 2"
    by (simp add: len_def out_update_def update_txt_def dump_slice_txt_def to_string_def
        Collection_add_def add_dict_def sum_logpost_def py_sum_def
        except_ValueError_def Let_def enlarge_if_needed_def Collection_init_def example_model_def
        setitem_def assign_zip_def weight_name_def minuslogpost_name_def minuslogprior_name_def
        chi2_name_def separator_def default_settings_def nan_rows_def)
  from flush_delta_twice_header_once[OF refl, of default_settings
      "[Add [1, 2] None 1 None (Some [- 1]) (Some [- 2, - 3]), Update,
        Add [3, 4] None 1 (Some (- 7)) None None]" example_model 2]
  obtain c1 where u: "update_txt ?c = Inr c1" and t: "update_txt c1 = Inr c1"
    and h: "length (filter is_header (file_lines c1)) = (if len ?c = 0 then 0 else 1)"
    and fl: "file_lines c1 = (if len ?c = 0 then []
                 else HeaderLine (columns ?c) # map DataLine (take (len ?c) (data ?c)))"
    by blast
  from h f have "length (filter is_header (file_lines c1)) = 1" by simp
  moreover from fl f have "length (file_lines c1) = 3" by simp
  ultimately show ?thesis using u t by blast
qed

end
